theory Spec2Isabelle
  imports Main "HOL-Library.Sublist"
begin

section \<open>Strings\<close>

text \<open>
  A JavaScript string is a sequence of UTF-16 code units. The model keeps the code units
  below 256 (Latin-1), one \<^typ>\<open>char\<close> each, so \<^const>\<open>length\<close> is the
  \<^verbatim>\<open>length\<close> of the JavaScript string. The functions of this section are the
  methods of \<^verbatim>\<open>String.prototype\<close> that the server calls.
\<close>

text \<open>\<^verbatim>\<open>s.includes(sub)\<close>: \<^verbatim>\<open>sub\<close> occurs in \<^verbatim>\<open>s\<close> as a contiguous run.\<close>

fun str_includes :: "string \<Rightarrow> string \<Rightarrow> bool" where
  "str_includes [] sub = (sub = [])"
| "str_includes (c # cs) sub = (prefix sub (c # cs) \<or> str_includes cs sub)"

text \<open>\<^verbatim>\<open>s.startsWith(p)\<close> and \<^verbatim>\<open>s.endsWith(p)\<close>.\<close>

definition startsWith :: "string \<Rightarrow> string \<Rightarrow> bool" where
  "startsWith s p = prefix p s"

definition endsWith :: "string \<Rightarrow> string \<Rightarrow> bool" where
  "endsWith s p = suffix p s"

text \<open>
  \<^verbatim>\<open>s.toLowerCase()\<close> on Latin-1: the letters A-Z and the accented capitals
  U+00C0..U+00DE (U+00D7, the multiplication sign, apart) move up by 32.
\<close>

definition lower_char :: "char \<Rightarrow> char" where
  "lower_char c =
     (let n = (of_char c :: nat)
      in if (65 \<le> n \<and> n \<le> 90) \<or> (192 \<le> n \<and> n \<le> 222 \<and> n \<noteq> 215)
         then char_of (n + 32) else c)"

definition toLowerCase :: "string \<Rightarrow> string" where
  "toLowerCase s = map lower_char s"

text \<open>
  White space and line terminators of ECMAScript below 256: tab, line feed, vertical
  tab, form feed, carriage return, space and the no-break space. They are what
  \<^verbatim>\<open>trim\<close> strips and what \<^verbatim>\<open>\s\<close> matches.
\<close>

definition is_space :: "char \<Rightarrow> bool" where
  "is_space c = (of_char c \<in> {9, 10, 11, 12, 13, 32, 160 :: nat})"

definition trim :: "string \<Rightarrow> string" where
  "trim s = rev (dropWhile is_space (rev (dropWhile is_space s)))"

text \<open>\<^verbatim>\<open>xs.join(sep)\<close> on an array of strings.\<close>

fun join :: "string \<Rightarrow> string list \<Rightarrow> string" where
  "join sep [] = []"
| "join sep [x] = x"
| "join sep (x # y # ys) = x @ sep @ join sep (y # ys)"

text \<open>\<^verbatim>\<open>s.split(c)\<close> for a separator of one character; never the empty array.\<close>

fun split :: "char \<Rightarrow> string \<Rightarrow> string list" where
  "split c [] = [[]]"
| "split c (x # xs) =
     (if x = c then [] # split c xs
      else (case split c xs of [] \<Rightarrow> [[x]] | y # ys \<Rightarrow> (x # y) # ys))"

section \<open>Component records\<close>

text \<open>
  One entry of \<^verbatim>\<open>props\<close>: \<^verbatim>\<open>{ type, optional }\<close>. The \<^verbatim>\<open>props\<close> object itself
  is the list of its own enumerable properties in the order \<^verbatim>\<open>Object.entries\<close>
  gives them. \<^verbatim>\<open>dependencies\<close> is an optional field of
  \<^verbatim>\<open>ComponentDefinition\<close>: the fallback record of the parser leaves it out.
\<close>

record PropConfig =
  ptype :: string
  optional :: bool

type_synonym Props = "(string \<times> PropConfig) list"

record ComponentDefinition =
  name :: string
  path :: string
  props :: Props
  usage :: string
  dependencies :: "string list option"

subsection \<open>Usage examples\<close>

definition getExampleValue :: "string \<Rightarrow> string" where
  "getExampleValue ty =
     (if str_includes ty ''string'' then ''\"example\"''
      else if str_includes ty ''number'' then ''42''
      else if str_includes ty ''boolean'' then ''true''
      else if str_includes ty ''function'' \<or> str_includes ty ''=>'' then ''() => {}''
      else if str_includes ty ''[]'' then ''[]''
      else ''{}'')"

definition prop_fragment :: "string \<times> PropConfig \<Rightarrow> string" where
  "prop_fragment e = fst e @ ''={'' @ getExampleValue (ptype (snd e)) @ ''}''"

definition generateUsageExample :: "string \<Rightarrow> Props \<Rightarrow> string" where
  "generateUsageExample componentName ps =
     (let requiredProps =
            join '' '' (map prop_fragment (filter (\<lambda>e. \<not> optional (snd e)) ps))
      in ''<'' @ componentName
         @ (if requiredProps \<noteq> [] then '' '' @ requiredProps else []) @ '' />'')"

section \<open>Regular expressions\<close>

text \<open>
  The parser works with three regular expressions. They are kept as data and run by a
  backtracking matcher with the priorities of ECMAScript: a quantifier is greedy and
  gives characters back one at a time, an optional part is tried before it is skipped,
  and the leftmost start position that matches wins.
\<close>

datatype cclass =
    Space                \<comment> \<open>\<^verbatim>\<open>\s\<close>\<close>
  | Word                 \<comment> \<open>\<^verbatim>\<open>\w\<close>\<close>
  | AnyChar              \<comment> \<open>\<^verbatim>\<open>.\<close>: anything but a line terminator\<close>
  | OneOf "char list"    \<comment> \<open>\<^verbatim>\<open>[...]\<close>\<close>
  | NoneOf "char list"   \<comment> \<open>\<^verbatim>\<open>[^...]\<close>\<close>

datatype re =
    Lit string           \<comment> \<open>literal text\<close>
  | One cclass           \<comment> \<open>one character of a class\<close>
  | Many cclass          \<comment> \<open>\<^verbatim>\<open>c*\<close>\<close>
  | Many1 cclass         \<comment> \<open>\<^verbatim>\<open>c+\<close>\<close>
  | Opt re               \<comment> \<open>\<^verbatim>\<open>r?\<close>\<close>
  | Group nat re         \<comment> \<open>capture group number n\<close>
  | Seq re re

fun seqs :: "re list \<Rightarrow> re" where
  "seqs [] = Lit []"
| "seqs [r] = r"
| "seqs (r # rs) = Seq r (seqs rs)"

definition is_word :: "char \<Rightarrow> bool" where
  "is_word c =
     (let n = (of_char c :: nat)
      in (48 \<le> n \<and> n \<le> 57) \<or> (65 \<le> n \<and> n \<le> 90) \<or> n = 95 \<or> (97 \<le> n \<and> n \<le> 122))"

fun in_class :: "cclass \<Rightarrow> char \<Rightarrow> bool" where
  "in_class Space c = is_space c"
| "in_class Word c = is_word c"
| "in_class AnyChar c = (of_char c \<notin> {10, 13 :: nat})"
| "in_class (OneOf cs) c = (c \<in> set cs)"
| "in_class (NoneOf cs) c = (c \<notin> set cs)"

text \<open>
  The captures of a match: group number and captured text, latest first. A group that
  took no part in the match has no entry (\<^verbatim>\<open>undefined\<close> in JavaScript).
\<close>

type_synonym captures = "(nat \<times> string) list"

text \<open>
  \<open>backtrack r s cs\<close> lists every way \<open>r\<close> matches a prefix of \<open>s\<close>, in the order
  the engine tries them: the input left over and the captures so far.
\<close>

fun backtrack :: "re \<Rightarrow> string \<Rightarrow> captures \<Rightarrow> (string \<times> captures) list" where
  "backtrack (Lit l) s cs = (if prefix l s then [(drop (length l) s, cs)] else [])"
| "backtrack (One c) s cs =
     (case s of [] \<Rightarrow> [] | x # xs \<Rightarrow> if in_class c x then [(xs, cs)] else [])"
| "backtrack (Many c) s cs =
     map (\<lambda>k. (drop k s, cs)) (rev [0 ..< Suc (length (takeWhile (in_class c) s))])"
| "backtrack (Many1 c) s cs =
     map (\<lambda>k. (drop k s, cs)) (rev [1 ..< Suc (length (takeWhile (in_class c) s))])"
| "backtrack (Opt r) s cs = backtrack r s cs @ [(s, cs)]"
| "backtrack (Group n r) s cs =
     map (\<lambda>(rest, cs'). (rest, (n, take (length s - length rest) s) # cs'))
       (backtrack r s cs)"
| "backtrack (Seq a b) s cs =
     concat (map (\<lambda>(rest, cs'). backtrack b rest cs') (backtrack a s cs))"

text \<open>
  \<^verbatim>\<open>s.match(r)\<close> for a regular expression without the \<^verbatim>\<open>g\<close> flag: the first match,
  as the matched text and the captures, or \<open>None\<close> for \<^verbatim>\<open>null\<close>.
\<close>

fun str_match :: "re \<Rightarrow> string \<Rightarrow> (string \<times> captures) option" where
  "str_match r [] =
     (case backtrack r [] [] of [] \<Rightarrow> None | (rest, cs) # _ \<Rightarrow> Some ([], cs))"
| "str_match r (x # xs) =
     (case backtrack r (x # xs) [] of
        [] \<Rightarrow> str_match r xs
      | (rest, cs) # _ \<Rightarrow> Some (take (length (x # xs) - length rest) (x # xs), cs))"

text \<open>
  \<^verbatim>\<open>s.match(r)\<close> with the \<^verbatim>\<open>g\<close> flag: the text of every match, each search
  starting where the last match ended (one character further after an empty match).
  \<open>skip\<close> counts the characters still covered by the last match.
\<close>

fun match_global :: "re \<Rightarrow> string \<Rightarrow> nat \<Rightarrow> string list" where
  "match_global r [] skip =
     (if skip = 0 \<and> backtrack r [] [] \<noteq> [] then [[]] else [])"
| "match_global r (x # xs) skip =
     (if 0 < skip then match_global r xs (skip - 1)
      else (case backtrack r (x # xs) [] of
              [] \<Rightarrow> match_global r xs 0
            | (rest, cs) # _ \<Rightarrow>
                (let m = take (length (x # xs) - length rest) (x # xs)
                 in m # match_global r xs (length m - 1))))"

definition group :: "captures \<Rightarrow> nat \<Rightarrow> string option" where
  "group cs n = map_of cs n"

text \<open>\<^verbatim>\<open>/interface\s+(\w+Props)\s*{([^}]+)}/\<close>\<close>

definition props_interface_re :: re where
  "props_interface_re =
     seqs [Lit ''interface'', Many1 Space, Group 1 (seqs [Many1 Word, Lit ''Props'']),
           Many Space, Lit ''{'', Group 2 (Many1 (NoneOf ''}'')), Lit ''}'']"

text \<open>\<^verbatim>\<open>/(\w+)(\?)?:\s*([^;]+)/\<close>\<close>

definition prop_line_re :: re where
  "prop_line_re =
     seqs [Group 1 (Many1 Word), Opt (Group 2 (Lit ''?'')), Lit '':'', Many Space,
           Group 3 (Many1 (NoneOf '';''))]"

text \<open>\<^verbatim>\<open>/import\s+.*\s+from\s+['"]([^'"]+)['"]/g\<close>\<close>

definition import_re :: re where
  "import_re =
     seqs [Lit ''import'', Many1 Space, Many AnyChar, Many1 Space, Lit ''from'',
           Many1 Space, One (OneOf [CHR 0x27, CHR 0x22]),
           Group 1 (Many1 (NoneOf [CHR 0x27, CHR 0x22])), One (OneOf [CHR 0x27, CHR 0x22])]"

text \<open>\<^verbatim>\<open>/from\s+['"]([^'"]+)['"]/\<close>\<close>

definition from_re :: re where
  "from_re =
     seqs [Lit ''from'', Many1 Space, One (OneOf [CHR 0x27, CHR 0x22]),
           Group 1 (Many1 (NoneOf [CHR 0x27, CHR 0x22])), One (OneOf [CHR 0x27, CHR 0x22])]"

section \<open>Objects\<close>

text \<open>
  \<^verbatim>\<open>acc[k] = v\<close> on an ordinary object, seen through \<^verbatim>\<open>Object.entries\<close>: a key
  that is an array index (the canonical decimal form of an integer below \<open>2^32 - 1\<close>)
  is listed before every other key, in ascending numeric order; any other key is
  listed in the order of its creation; writing an existing key keeps its place; and
  writing \<^verbatim>\<open>__proto__\<close> sets the prototype and creates no own property.
\<close>

definition is_digit :: "char \<Rightarrow> bool" where
  "is_digit c = (48 \<le> (of_char c :: nat) \<and> (of_char c :: nat) \<le> 57)"

definition decimal :: "string \<Rightarrow> int" where
  "decimal k = foldl (\<lambda>n c. 10 * n + (of_char c - 48)) 0 k"

definition is_array_index :: "string \<Rightarrow> bool" where
  "is_array_index k =
     (k \<noteq> [] \<and> list_all is_digit k \<and> (k = ''0'' \<or> hd k \<noteq> CHR ''0'')
      \<and> decimal k < 4294967295)"

definition js_set :: "(string \<times> 'v) list \<Rightarrow> string \<Rightarrow> 'v \<Rightarrow> (string \<times> 'v) list" where
  "js_set obj k v =
     (if k = ''__proto__'' then obj
      else if k \<in> fst ` set obj then map (\<lambda>e. if fst e = k then (k, v) else e) obj
      else if is_array_index k then
        (let smaller = (\<lambda>e. is_array_index (fst e) \<and> decimal (fst e) < decimal k)
         in takeWhile smaller obj @ [(k, v)] @ dropWhile smaller obj)
      else obj @ [(k, v)])"

section \<open>Paths and the file system\<close>

text \<open>
  The functions of Node's \<^verbatim>\<open>path\<close> module on POSIX, on the arguments the server
  gives them: \<^verbatim>\<open>path.join(dir, name)\<close> with a normalized directory and one entry
  name, \<^verbatim>\<open>path.relative(from, to)\<close> with two normalized absolute paths.
\<close>

definition path_join :: "string \<Rightarrow> string \<Rightarrow> string" where
  "path_join dir nm = (if dir = ''/'' then dir @ nm else dir @ ''/'' @ nm)"

definition path_segments :: "string \<Rightarrow> string list" where
  "path_segments p = filter (\<lambda>seg. seg \<noteq> []) (split CHR ''/'' p)"

fun drop_common :: "string list \<Rightarrow> string list \<Rightarrow> string list \<times> string list" where
  "drop_common (a # as) (b # bs) = (if a = b then drop_common as bs else (a # as, b # bs))"
| "drop_common as bs = (as, bs)"

definition path_relative :: "string \<Rightarrow> string \<Rightarrow> string" where
  "path_relative from to =
     (if from = to then []
      else if from = ''/'' \<and> prefix ''/'' to then drop 1 to
      else if prefix (from @ ''/'') to then drop (length from + 1) to
      else (case drop_common (path_segments from) (path_segments to) of
              (up, down) \<Rightarrow> join ''/'' (map (\<lambda>_. ''..'') up @ down)))"

text \<open>\<^verbatim>\<open>path.basename(p)\<close>: the last segment, trailing slashes apart.\<close>

definition path_basename :: "string \<Rightarrow> string" where
  "path_basename p = last (split CHR ''/'' (rev (dropWhile (\<lambda>c. c = CHR ''/'') (rev p))))"

text \<open>
  \<^verbatim>\<open>path.extname(p)\<close>: from the last dot of the base name to its end; empty when
  there is no dot, when the only dot is the first character, and for \<^verbatim>\<open>..\<close>.
\<close>

definition path_extname :: "string \<Rightarrow> string" where
  "path_extname p =
     (let b = path_basename p;
          after = rev (takeWhile (\<lambda>c. c \<noteq> CHR ''.'') (rev b))
      in if CHR ''.'' \<notin> set b then []
         else if length b = length after + 1 then []
         else if b = ''..'' then []
         else CHR ''.'' # after)"

text \<open>\<^verbatim>\<open>path.basename(p, ext)\<close>: the base name without the suffix \<^verbatim>\<open>ext\<close>.\<close>

definition path_basename_ext :: "string \<Rightarrow> string \<Rightarrow> string" where
  "path_basename_ext p ext =
     (let b = path_basename p
      in if ext \<noteq> [] \<and> ext = p then []
         else if ext \<noteq> [] \<and> suffix ext b \<and> ext \<noteq> b then take (length b - length ext) b
         else b)"

text \<open>
  What \<^verbatim>\<open>fs.readdir(dir, { withFileTypes: true })\<close> finds at a path: a directory
  with its entries in the order they are returned, a directory that cannot be listed,
  a file, or nothing. \<^verbatim>\<open>readdir\<close> throws on everything but the first.
\<close>

datatype node =
    File
  | Dir "(string \<times> node) list"
  | Unreadable
  | Missing

fun isDirectory :: "node \<Rightarrow> bool" where
  "isDirectory (Dir _) = True"
| "isDirectory Unreadable = True"
| "isDirectory _ = False"

text \<open>
  The environment of one call: the working directory of the process, what lies at
  \<^verbatim>\<open>src/components\<close> below it, and \<^verbatim>\<open>fs.readFile(p, 'utf-8')\<close> (\<open>None\<close> when it
  throws).
\<close>

record FileSystem =
  cwd :: string
  componentsRoot :: node
  readFile :: "string \<Rightarrow> string option"

section \<open>Scanner and parser\<close>

text \<open>
  \<^verbatim>\<open>scanForComponents\<close>: the \<^verbatim>\<open>try\<close> block around \<^verbatim>\<open>readdir\<close> and the loop
  swallows every error, so the function always returns the files found so far.
\<close>

fun scanForComponents :: "string \<Rightarrow> node \<Rightarrow> string list"
  and scanEntries :: "string \<Rightarrow> (string \<times> node) list \<Rightarrow> string list" where
  "scanForComponents dir (Dir entries) = scanEntries dir entries"
| "scanForComponents dir File = []"
| "scanForComponents dir Unreadable = []"
| "scanForComponents dir Missing = []"
| "scanEntries dir [] = []"
| "scanEntries dir (e # es) =
     (let fullPath = path_join dir (fst e)
      in (if isDirectory (snd e) then scanForComponents fullPath (snd e)
          else if endsWith (fst e) ''.tsx'' \<or> endsWith (fst e) ''.ts'' then [fullPath]
          else [])
         @ scanEntries dir es)"

text \<open>
  The body of the \<^verbatim>\<open>reduce\<close> over the property lines. Groups 1 and 3 of the
  pattern take part in every match, so the last case is never reached.
\<close>

definition parsePropLine :: "Props \<Rightarrow> string \<Rightarrow> Props" where
  "parsePropLine acc line =
     (case str_match prop_line_re line of
        None \<Rightarrow> acc
      | Some m \<Rightarrow>
          (case (group (snd m) 1, group (snd m) 3) of
             (Some k, Some ty) \<Rightarrow>
               js_set acc k \<lparr>ptype = trim ty, optional = (group (snd m) 2 \<noteq> None)\<rparr>
           | _ \<Rightarrow> acc))"

definition extractProps :: "string \<Rightarrow> Props" where
  "extractProps content =
     (case str_match props_interface_re content of
        None \<Rightarrow> []
      | Some m \<Rightarrow>
          (case group (snd m) 2 of
             None \<Rightarrow> []
           | Some propsContent \<Rightarrow>
               (let propLines =
                      map trim
                        (filter (\<lambda>line. trim line \<noteq> [] \<and> \<not> startsWith (trim line) ''//'')
                           (split CHR 0x0A propsContent))
                in foldl parsePropLine [] propLines)))"

text \<open>
  \<^verbatim>\<open>extractDependencies\<close>: every match of the import pattern gives the specifier
  after \<^verbatim>\<open>from\<close>; \<^verbatim>\<open>filter(Boolean)\<close> drops \<^verbatim>\<open>null\<close> and the empty string.
\<close>

definition extractDependencies :: "string \<Rightarrow> string list" where
  "extractDependencies content =
     concat (map (\<lambda>m. case str_match from_re m of
                         None \<Rightarrow> []
                       | Some fromMatch \<Rightarrow>
                           (case group (snd fromMatch) 1 of
                              None \<Rightarrow> []
                            | Some d \<Rightarrow> if d \<noteq> [] then [d] else []))
               (match_global import_re content 0))"

definition componentName :: "string \<Rightarrow> string" where
  "componentName filePath = path_basename_ext filePath (path_extname filePath)"

text \<open>
  \<^verbatim>\<open>parseComponent\<close>: only \<^verbatim>\<open>readFile\<close> can throw inside the \<^verbatim>\<open>try\<close> block; the
  \<^verbatim>\<open>catch\<close> block returns the record without properties and dependencies.
\<close>

definition parseComponent :: "FileSystem \<Rightarrow> string \<Rightarrow> ComponentDefinition" where
  "parseComponent fs filePath =
     (case readFile fs filePath of
        Some content \<Rightarrow>
          (let ps = extractProps content
           in \<lparr>name = componentName filePath,
               path = path_relative (cwd fs) filePath,
               props = ps,
               usage = generateUsageExample (componentName filePath) ps,
               dependencies = Some (extractDependencies content)\<rparr>)
      | None \<Rightarrow>
          \<lparr>name = componentName filePath,
           path = path_relative (cwd fs) filePath,
           props = [],
           usage = ''<'' @ componentName filePath @ '' />'',
           dependencies = None\<rparr>)"

definition getDefaultComponents :: "ComponentDefinition list" where
  "getDefaultComponents =
     [\<lparr>name = ''Preview'',
       path = ''src/components/Preview.tsx'',
       props = [(''code'', \<lparr>ptype = ''string'', optional = False\<rparr>)],
       usage = ''<Preview code={generatedCode} />'',
       dependencies = Some [''react'']\<rparr>,
      \<lparr>name = ''FileExplorer'',
       path = ''src/components/FileExplorer.tsx'',
       props = [(''files'', \<lparr>ptype = ''GeneratedFile[]'', optional = False\<rparr>),
                (''onOpenFile'', \<lparr>ptype = ''(file: GeneratedFile) => void'', optional = False\<rparr>),
                (''onDeleteFile'', \<lparr>ptype = ''(path: string) => void'', optional = False\<rparr>)],
       usage = ''<FileExplorer files={files} onOpenFile={handleOpenFile} onDeleteFile={handleDeleteFile} />'',
       dependencies = Some [''react'']\<rparr>]"

section \<open>The component cache and the handlers\<close>

record ComponentMCPServer =
  componentsCache :: "ComponentDefinition list"

definition initial_server :: ComponentMCPServer where
  "initial_server = \<lparr>componentsCache = []\<rparr>"

definition componentsDir :: "FileSystem \<Rightarrow> string" where
  "componentsDir fs = path_join (path_join (cwd fs) ''src'') ''components''"

text \<open>
  \<^verbatim>\<open>loadComponents\<close>. Its \<^verbatim>\<open>catch\<close> block stores \<^verbatim>\<open>getDefaultComponents()\<close>, but
  nothing in its \<^verbatim>\<open>try\<close> block throws: \<^verbatim>\<open>scanForComponents\<close> and
  \<^verbatim>\<open>parseComponent\<close> catch their own errors. \<^verbatim>\<open>Promise.all\<close> keeps the order of
  the files.
\<close>

definition loadComponents :: "FileSystem \<Rightarrow> ComponentMCPServer \<Rightarrow> ComponentMCPServer" where
  "loadComponents fs s =
     s\<lparr>componentsCache :=
         map (parseComponent fs) (scanForComponents (componentsDir fs) (componentsRoot fs))\<rparr>"

text \<open>The guard at the head of every handler that reads the cache.\<close>

definition ensureLoaded :: "FileSystem \<Rightarrow> ComponentMCPServer \<Rightarrow> ComponentMCPServer" where
  "ensureLoaded fs s = (if length (componentsCache s) = 0 then loadComponents fs s else s)"

text \<open>
  The value a handler passes to \<^verbatim>\<open>JSON.stringify\<close> for the text of its result; the
  serialization itself is not modelled. The usage guidelines of \<^verbatim>\<open>getComponents\<close>
  and the design tokens are constants of the source.
\<close>

datatype payload =
    ComponentsWithGuidelines "ComponentDefinition list"
  | OneComponent ComponentDefinition
  | DesignTokens
  | ComponentList "ComponentDefinition list"
  | ErrorObject string    \<comment> \<open>\<^verbatim>\<open>{ error: msg }\<close>\<close>

text \<open>\<^verbatim>\<open>throw new Error(msg)\<close> in a handler, and a rejection by the input schema.\<close>

datatype failure = Error string | ValidationError

definition getComponents ::
  "FileSystem \<Rightarrow> string \<Rightarrow> ComponentMCPServer \<Rightarrow> payload \<times> ComponentMCPServer" where
  "getComponents fs category s =
     (let s' = ensureLoaded fs s;
          filtered =
            (if category \<noteq> ''all'' then
               filter (\<lambda>c. str_includes (path c) (''/'' @ category @ ''/'')
                           \<or> str_includes (toLowerCase (name c)) category)
                 (componentsCache s')
             else componentsCache s')
      in (ComponentsWithGuidelines filtered, s'))"

definition getComponentByName ::
  "FileSystem \<Rightarrow> string \<Rightarrow> ComponentMCPServer \<Rightarrow> (failure + payload) \<times> ComponentMCPServer" where
  "getComponentByName fs nm s =
     (let s' = ensureLoaded fs s
      in (case find (\<lambda>c. toLowerCase (name c) = toLowerCase nm) (componentsCache s') of
            None \<Rightarrow> (Inl (Error (''Component '' @ nm @ '' not found'')), s')
          | Some component \<Rightarrow> (Inr (OneComponent component), s')))"

definition getDesignTokens :: "payload" where
  "getDesignTokens = DesignTokens"

text \<open>The two resources: \<^verbatim>\<open>components://all\<close> and \<^verbatim>\<open>component://{name}\<close>.\<close>

definition readAllComponents ::
  "FileSystem \<Rightarrow> ComponentMCPServer \<Rightarrow> payload \<times> ComponentMCPServer" where
  "readAllComponents fs s =
     (let s' = ensureLoaded fs s in (ComponentList (componentsCache s'), s'))"

definition readComponent ::
  "FileSystem \<Rightarrow> string \<Rightarrow> ComponentMCPServer \<Rightarrow> payload \<times> ComponentMCPServer" where
  "readComponent fs nm s =
     (let s' = ensureLoaded fs s
      in (case find (\<lambda>c. toLowerCase (name c) = toLowerCase nm) (componentsCache s') of
            Some found \<Rightarrow> (OneComponent found, s')
          | None \<Rightarrow> (ErrorObject (''Component '' @ nm @ '' not found''), s')))"

text \<open>
  The registered tools with their input schemas: \<^verbatim>\<open>category\<close> is one of four
  literals, \<^verbatim>\<open>name\<close> is a string of 2 to 100 code units. Arguments that fail the
  schema never reach the handler. \<open>handle\<close> is one request served alone, from its
  arrival to its answer, with no other request in between.
\<close>

datatype request =
    CallGetComponents string
  | CallGetComponentByName string
  | CallGetDesignTokens
  | ReadAllComponents
  | ReadComponent string

fun handle ::
  "FileSystem \<Rightarrow> request \<Rightarrow> ComponentMCPServer \<Rightarrow> (failure + payload) \<times> ComponentMCPServer" where
  "handle fs (CallGetComponents category) s =
     (if category \<in> {''ui'', ''layout'', ''forms'', ''all''}
      then (case getComponents fs category s of (r, s') \<Rightarrow> (Inr r, s'))
      else (Inl ValidationError, s))"
| "handle fs (CallGetComponentByName nm) s =
     (if 2 \<le> length nm \<and> length nm \<le> 100 then getComponentByName fs nm s
      else (Inl ValidationError, s))"
| "handle fs CallGetDesignTokens s = (Inr getDesignTokens, s)"
| "handle fs ReadAllComponents s =
     (case readAllComponents fs s of (r, s') \<Rightarrow> (Inr r, s'))"
| "handle fs (ReadComponent nm) s =
     (case readComponent fs nm s of (r, s') \<Rightarrow> (Inr r, s'))"

text \<open>
  The handlers are \<^verbatim>\<open>async\<close>. A handler that finds the cache empty calls
  \<^verbatim>\<open>loadComponents\<close> and waits; other requests are served in the meantime, and each
  of them that finds the cache still empty starts a load of its own. When a load is
  done it stores its list in the cache, whatever the cache holds by then, and the
  handler that waited for it continues later, reading the cache as it is at that
  moment. A handler that finds the cache not empty does not wait at all.

  \<open>respond\<close> is the part of a handler after the guard: the answer computed from the
  cache, or the rejection by the input schema.
\<close>

fun reads_cache :: "request \<Rightarrow> bool" where
  "reads_cache (CallGetComponents category) =
     (category \<in> {''ui'', ''layout'', ''forms'', ''all''})"
| "reads_cache (CallGetComponentByName nm) = (2 \<le> length nm \<and> length nm \<le> 100)"
| "reads_cache CallGetDesignTokens = False"
| "reads_cache ReadAllComponents = True"
| "reads_cache (ReadComponent nm) = True"

fun respond :: "request \<Rightarrow> ComponentMCPServer \<Rightarrow> failure + payload" where
  "respond (CallGetComponents category) s =
     (if category \<in> {''ui'', ''layout'', ''forms'', ''all''}
      then Inr (ComponentsWithGuidelines
             (if category \<noteq> ''all'' then
                filter (\<lambda>c. str_includes (path c) (''/'' @ category @ ''/'')
                            \<or> str_includes (toLowerCase (name c)) category)
                  (componentsCache s)
              else componentsCache s))
      else Inl ValidationError)"
| "respond (CallGetComponentByName nm) s =
     (if 2 \<le> length nm \<and> length nm \<le> 100
      then (case find (\<lambda>c. toLowerCase (name c) = toLowerCase nm) (componentsCache s) of
              None \<Rightarrow> Inl (Error (''Component '' @ nm @ '' not found''))
            | Some component \<Rightarrow> Inr (OneComponent component))
      else Inl ValidationError)"
| "respond CallGetDesignTokens s = Inr getDesignTokens"
| "respond ReadAllComponents s = Inr (ComponentList (componentsCache s))"
| "respond (ReadComponent nm) s =
     (case find (\<lambda>c. toLowerCase (name c) = toLowerCase nm) (componentsCache s) of
        Some found \<Rightarrow> Inr (OneComponent found)
      | None \<Rightarrow> Inr (ErrorObject (''Component '' @ nm @ '' not found'')))"

text \<open>
  The process: the server object, the requests whose handler waits for its load, and
  the requests whose load is done and whose handler has yet to continue. Requests are
  told apart by a number.
\<close>

record Process =
  server :: ComponentMCPServer
  loading :: "(nat \<times> request) list"
  resuming :: "(nat \<times> request) list"

definition initial_process :: Process where
  "initial_process = \<lparr>server = initial_server, loading = [], resuming = []\<rparr>"

text \<open>
  What happens, one thing at a time: a request arrives and its handler runs up to its
  first wait, or to its end when it need not wait; a load is done, with the file
  system as that load read it; a handler whose load is done continues to its end.
\<close>

datatype action = Arrive nat request | LoadDone nat FileSystem | Resume nat

fun act :: "action \<Rightarrow> Process \<Rightarrow> (failure + payload) option \<times> Process" where
  "act (Arrive i req) p =
     (if reads_cache req \<and> length (componentsCache (server p)) = 0
      then (None, p\<lparr>loading := loading p @ [(i, req)]\<rparr>)
      else (Some (respond req (server p)), p))"
| "act (LoadDone i fs) p =
     (case map_of (loading p) i of
        None \<Rightarrow> (None, p)
      | Some req \<Rightarrow>
          (None, p\<lparr>server := loadComponents fs (server p),
                   loading := remove1 (i, req) (loading p),
                   resuming := resuming p @ [(i, req)]\<rparr>))"
| "act (Resume i) p =
     (case map_of (resuming p) i of
        None \<Rightarrow> (None, p)
      | Some req \<Rightarrow>
          (Some (respond req (server p)), p\<lparr>resuming := remove1 (i, req) (resuming p)\<rparr>))"

fun acts :: "action list \<Rightarrow> Process \<Rightarrow> (failure + payload) option list \<times> Process" where
  "acts [] p = ([], p)"
| "acts (a # as) p =
     (case act a p of (r, p') \<Rightarrow> (case acts as p' of (rs, p'') \<Rightarrow> (r # rs, p'')))"

section \<open>The HTTP endpoint\<close>

text \<open>
  \<^verbatim>\<open>transports\<close> is an ordinary object, created by \<^verbatim>\<open>{}\<close>: reading
  \<^verbatim>\<open>transports[key]\<close> finds an own property (a transport stored under its session
  identifier) or else a property that every object inherits from
  \<^verbatim>\<open>Object.prototype\<close>, which is a function or an object, so truthy, and no
  transport. A transport object is known by the number of its creation.
\<close>

type_synonym transport_id = nat

definition object_prototype_keys :: "string list" where
  "object_prototype_keys =
     [''constructor'', ''hasOwnProperty'', ''isPrototypeOf'', ''propertyIsEnumerable'',
      ''toLocaleString'', ''toString'', ''valueOf'', ''__proto__'',
      ''__defineGetter__'', ''__defineSetter__'', ''__lookupGetter__'', ''__lookupSetter__'']"

datatype property = Transport transport_id | Inherited | Undefined

definition js_get :: "(string \<rightharpoonup> transport_id) \<Rightarrow> string \<Rightarrow> property" where
  "js_get obj key =
     (case obj key of
        Some t \<Rightarrow> Transport t
      | None \<Rightarrow> if key \<in> set object_prototype_keys then Inherited else Undefined)"

text \<open>
  The state of the endpoint: the own properties of \<^verbatim>\<open>transports\<close>, the
  \<^verbatim>\<open>sessionId\<close> field of every transport created so far, and their number.
\<close>

record HttpServer =
  transports :: "string \<rightharpoonup> transport_id"
  sessionIdOf :: "transport_id \<rightharpoonup> string"
  created :: nat

definition initial_http :: HttpServer where
  "initial_http = \<lparr>transports = Map.empty, sessionIdOf = Map.empty, created = 0\<rparr>"

datatype json = JNull | JNum int | JStr string | JObj "(string \<times> json) list"

text \<open>
  How a request ends: \<^verbatim>\<open>res.status(n).json(v)\<close>, \<^verbatim>\<open>res.status(n).send(text)\<close>,
  a response written by \<^verbatim>\<open>transport.handleRequest\<close>, an exception that leaves
  the handler, or the error page with status \<open>n\<close> that Express writes when a
  middleware refuses the request.
\<close>

datatype http_response =
    Json nat json
  | Text nat string
  | FromTransport transport_id
  | Thrown string
  | ErrorPage nat

text \<open>
  \<^verbatim>\<open>transport.handleRequest\<close> belongs to the protocol library. Of what it does, the
  endpoint sees the two callbacks it passed in: \<^verbatim>\<open>onsessioninitialized(sid)\<close>, with
  the identifier that \<^verbatim>\<open>randomUUID()\<close> returned, called while the initialization
  request of a transport without a session is handled; and \<^verbatim>\<open>onclose()\<close>, called
  when the transport closes, as it does for a \<^verbatim>\<open>DELETE\<close> request it accepts. Which
  of them a call reaches is the library's decision and a parameter here.
\<close>

datatype sdk_effect = NoEffect | SessionInitialized string | Closed

definition onclose :: "transport_id \<Rightarrow> HttpServer \<Rightarrow> HttpServer" where
  "onclose t s =
     (case sessionIdOf s t of
        Some sid \<Rightarrow> if sid \<noteq> [] then s\<lparr>transports := (transports s)(sid := None)\<rparr> else s
      | None \<Rightarrow> s)"

definition onsessioninitialized :: "transport_id \<Rightarrow> string \<Rightarrow> HttpServer \<Rightarrow> HttpServer" where
  "onsessioninitialized t sid s = s\<lparr>transports := (transports s)(sid \<mapsto> t)\<rparr>"

definition handleRequest ::
  "transport_id \<Rightarrow> sdk_effect \<Rightarrow> HttpServer \<Rightarrow> http_response \<times> HttpServer" where
  "handleRequest t eff s =
     (case eff of
        NoEffect \<Rightarrow> (FromTransport t, s)
      | SessionInitialized sid \<Rightarrow>
          (if sessionIdOf s t = None
           then (FromTransport t,
                 onsessioninitialized t sid (s\<lparr>sessionIdOf := (sessionIdOf s)(t \<mapsto> sid)\<rparr>))
           else (FromTransport t, s))
      | Closed \<Rightarrow> (FromTransport t, onclose t s))"

definition no_session_error :: json where
  "no_session_error =
     JObj [(''jsonrpc'', JStr ''2.0''),
           (''error'', JObj [(''code'', JNum (- 32000)),
                             (''message'', JStr ''Bad Request: No valid session ID provided'')]),
           (''id'', JNull)]"

text \<open>A header value is truthy when the header is there and not empty.\<close>

fun truthy :: "string option \<Rightarrow> bool" where
  "truthy None = False"
| "truthy (Some v) = (v \<noteq> [])"

text \<open>\<^verbatim>\<open>transports[sessionId]\<close> for a header value that may be \<^verbatim>\<open>undefined\<close>.\<close>

fun transport_of :: "HttpServer \<Rightarrow> string option \<Rightarrow> property" where
  "transport_of s None = js_get (transports s) ''undefined''"
| "transport_of s (Some sid) = js_get (transports s) sid"

text \<open>
  \<^verbatim>\<open>app.post('/mcp', ...)\<close>, with the header \<^verbatim>\<open>mcp-session-id\<close> and the value of
  \<^verbatim>\<open>isInitializeRequest(req.body)\<close>. Calling \<^verbatim>\<open>handleRequest\<close> on an inherited
  property throws a \<^verbatim>\<open>TypeError\<close>.
\<close>

definition not_a_function :: string where
  "not_a_function = ''TypeError: transport.handleRequest is not a function''"

definition post_mcp ::
  "string option \<Rightarrow> bool \<Rightarrow> sdk_effect \<Rightarrow> HttpServer \<Rightarrow> http_response \<times> HttpServer" where
  "post_mcp sessionId isInitialize eff s =
     (if truthy sessionId \<and> transport_of s sessionId \<noteq> Undefined then
        (case transport_of s sessionId of
           Transport t \<Rightarrow> handleRequest t eff s
         | _ \<Rightarrow> (Thrown not_a_function, s))
      else if \<not> truthy sessionId \<and> isInitialize then
        handleRequest (created s) eff (s\<lparr>created := Suc (created s)\<rparr>)
      else (Json 400 no_session_error, s))"

text \<open>\<^verbatim>\<open>handleSessionRequest\<close>, registered for \<^verbatim>\<open>GET\<close> and \<^verbatim>\<open>DELETE\<close>.\<close>

definition handleSessionRequest ::
  "string option \<Rightarrow> sdk_effect \<Rightarrow> HttpServer \<Rightarrow> http_response \<times> HttpServer" where
  "handleSessionRequest sid eff s =
     (if \<not> truthy sid \<or> transport_of s sid = Undefined then
        (Text 400 ''Invalid or missing session ID'', s)
      else (case transport_of s sid of
              Transport t \<Rightarrow> handleRequest t eff s
            | _ \<Rightarrow> (Thrown not_a_function, s)))"

text \<open>
  What happens at the endpoint, one thing at a time: a request that reaches its route
  handler, with its session header and the library's part in it, or a transport that
  closes by itself.
\<close>

datatype http_method = GET | POST | DELETE

datatype event =
    Request http_method "string option" bool sdk_effect
  | TransportClosed transport_id

fun step :: "event \<Rightarrow> HttpServer \<Rightarrow> http_response option \<times> HttpServer" where
  "step (Request POST sid isInitialize eff) s =
     (case post_mcp sid isInitialize eff s of (r, s') \<Rightarrow> (Some r, s'))"
| "step (Request GET sid isInitialize eff) s =
     (case handleSessionRequest sid eff s of (r, s') \<Rightarrow> (Some r, s'))"
| "step (Request DELETE sid isInitialize eff) s =
     (case handleSessionRequest sid eff s of (r, s') \<Rightarrow> (Some r, s'))"
| "step (TransportClosed t) s = (None, onclose t s)"

fun exec :: "event list \<Rightarrow> HttpServer \<Rightarrow> HttpServer" where
  "exec [] s = s"
| "exec (e # es) s = exec es (snd (step e s))"

text \<open>
  \<^verbatim>\<open>app.use(express.json())\<close> stands before the three routes. A body that the
  parser refuses (JSON that does not parse: status 400; a body over the size limit:
  413; a character set or encoding it does not support: 415) never reaches a route
  handler: Express answers with its error page and that status. Any other body
  reaches the handler, and all the handler asks of it is
  \<^verbatim>\<open>isInitializeRequest(req.body)\<close>.
\<close>

datatype body = Parsed bool | Refused nat

fun endpoint ::
  "http_method \<Rightarrow> string option \<Rightarrow> body \<Rightarrow> sdk_effect \<Rightarrow> HttpServer
     \<Rightarrow> http_response \<times> HttpServer" where
  "endpoint m sid (Refused n) eff s = (ErrorPage n, s)"
| "endpoint POST sid (Parsed isInitialize) eff s = post_mcp sid isInitialize eff s"
| "endpoint GET sid (Parsed isInitialize) eff s = handleSessionRequest sid eff s"
| "endpoint DELETE sid (Parsed isInitialize) eff s = handleSessionRequest sid eff s"

text \<open>The identifier that an event hands to \<^verbatim>\<open>onsessioninitialized\<close>, if any.\<close>

fun initializes :: "event \<Rightarrow> string option" where
  "initializes (Request m sid isInitialize (SessionInitialized new)) = Some new"
| "initializes _ = None"

text \<open>
  The shape of what \<^verbatim>\<open>randomUUID()\<close> returns: 36 characters, hexadecimal digits in
  groups of 8, 4, 4, 4 and 12 with hyphens between them.
\<close>

definition is_hex :: "char \<Rightarrow> bool" where
  "is_hex c = (is_digit c \<or> (97 \<le> (of_char c :: nat) \<and> (of_char c :: nat) \<le> 102))"

definition is_uuid :: "string \<Rightarrow> bool" where
  "is_uuid sid =
     (length sid = 36 \<and>
      list_all (\<lambda>(i, c). if i \<in> {8, 13, 18, 23 :: nat} then c = CHR ''-'' else is_hex c)
        (enumerate 0 sid))"

section \<open>The specification's words\<close>

text \<open>A path contains a path segment equal to \<open>seg\<close>.\<close>

definition has_segment :: "string \<Rightarrow> string \<Rightarrow> bool" where
  "has_segment p seg = (seg \<in> set (split CHR ''/'' p))"

text \<open>
  Two characters are the same when case is ignored if they are equal or are the
  capital and the small form of one letter, by the table of the Latin-1 letters.
\<close>

definition capitals :: string where
  "capitals = ''ABCDEFGHIJKLMNOPQRSTUVWXYZ''"

definition smalls :: string where
  "smalls = ''abcdefghijklmnopqrstuvwxyz''"

definition accented_capitals :: string where
  "accented_capitals =
     [CHR 0xC0, CHR 0xC1, CHR 0xC2, CHR 0xC3, CHR 0xC4, CHR 0xC5, CHR 0xC6, CHR 0xC7,
      CHR 0xC8, CHR 0xC9, CHR 0xCA, CHR 0xCB, CHR 0xCC, CHR 0xCD, CHR 0xCE, CHR 0xCF,
      CHR 0xD0, CHR 0xD1, CHR 0xD2, CHR 0xD3, CHR 0xD4, CHR 0xD5, CHR 0xD6, CHR 0xD8,
      CHR 0xD9, CHR 0xDA, CHR 0xDB, CHR 0xDC, CHR 0xDD, CHR 0xDE]"

definition accented_smalls :: string where
  "accented_smalls =
     [CHR 0xE0, CHR 0xE1, CHR 0xE2, CHR 0xE3, CHR 0xE4, CHR 0xE5, CHR 0xE6, CHR 0xE7,
      CHR 0xE8, CHR 0xE9, CHR 0xEA, CHR 0xEB, CHR 0xEC, CHR 0xED, CHR 0xEE, CHR 0xEF,
      CHR 0xF0, CHR 0xF1, CHR 0xF2, CHR 0xF3, CHR 0xF4, CHR 0xF5, CHR 0xF6, CHR 0xF8,
      CHR 0xF9, CHR 0xFA, CHR 0xFB, CHR 0xFC, CHR 0xFD, CHR 0xFE]"

definition letter_cases :: "(char \<times> char) list" where
  "letter_cases = zip capitals smalls @ zip accented_capitals accented_smalls"

definition same_ignoring_case :: "char \<Rightarrow> char \<Rightarrow> bool" where
  "same_ignoring_case c d =
     (c = d \<or> (c, d) \<in> set letter_cases \<or> (d, c) \<in> set letter_cases)"

fun starts_ignoring_case :: "string \<Rightarrow> string \<Rightarrow> bool" where
  "starts_ignoring_case s [] = True"
| "starts_ignoring_case [] (d # ds) = False"
| "starts_ignoring_case (c # cs) (d # ds) =
     (same_ignoring_case c d \<and> starts_ignoring_case cs ds)"

fun contains_ignoring_case :: "string \<Rightarrow> string \<Rightarrow> bool" where
  "contains_ignoring_case [] sub = (sub = [])"
| "contains_ignoring_case (c # cs) sub =
     (starts_ignoring_case (c # cs) sub \<or> contains_ignoring_case cs sub)"

text \<open>
  The names a directory listing can hold: not empty and free of the separator.
\<close>

fun wf_node :: "node \<Rightarrow> bool" where
  "wf_node (Dir entries) =
     list_all (\<lambda>e. fst e \<noteq> [] \<and> CHR ''/'' \<notin> set (fst e) \<and> wf_node (snd e)) entries"
| "wf_node _ = True"

text \<open>A load that read a file system with such names, or any other action.\<close>

fun wf_action :: "action \<Rightarrow> bool" where
  "wf_action (LoadDone i fs) = wf_node (componentsRoot fs)"
| "wf_action _ = True"

text \<open>The pattern \<open>r\<close> matches at no position of \<open>pre\<close> in the text \<open>pre @ rest\<close>.\<close>

fun no_match_before :: "re \<Rightarrow> string \<Rightarrow> string \<Rightarrow> bool" where
  "no_match_before r [] rest = True"
| "no_match_before r (x # xs) rest =
     (backtrack r (x # xs @ rest) [] = [] \<and> no_match_before r xs rest)"

section \<open>Notions used in the proofs\<close>

text \<open>
  Entry names strung together, each behind a separator, and the paths the scanner can
  return below a directory: the directory, then one or more entry names free of the
  separator, the last of them with one of the two extensions.
\<close>

definition joined :: "string list \<Rightarrow> string" where
  "joined names = concat (map (\<lambda>n. CHR ''/'' # n) names)"

definition scanned_below :: "string \<Rightarrow> string \<Rightarrow> bool" where
  "scanned_below dir f \<longleftrightarrow>
     (\<exists>names. names \<noteq> [] \<and> (\<forall>n \<in> set names. CHR ''/'' \<notin> set n)
        \<and> (endsWith (last names) ''.tsx'' \<or> endsWith (last names) ''.ts'')
        \<and> f = dir @ joined names)"

definition record_path_ok :: "string \<Rightarrow> bool" where
  "record_path_ok p \<longleftrightarrow> scanned_below ''src/components'' p"

text \<open>
  Every transport stored in \<^verbatim>\<open>transports\<close> is stored under its own session
  identifier.
\<close>

definition sessions_consistent :: "HttpServer \<Rightarrow> bool" where
  "sessions_consistent s \<longleftrightarrow>
     (\<forall>sid t. transports s sid = Some t \<longrightarrow> sessionIdOf s t = Some sid)"

section \<open>Example inputs\<close>

definition one_line_interface :: string where
  "one_line_interface = ''interface FooProps { bar: string; baz?: number; }''"

definition fs_missing :: FileSystem where
  "fs_missing = \<lparr>cwd = ''/app'', componentsRoot = Missing, readFile = (\<lambda>p. None)\<rparr>"

definition fs_empty :: FileSystem where
  "fs_empty = \<lparr>cwd = ''/app'', componentsRoot = Dir [], readFile = (\<lambda>p. None)\<rparr>"

definition fs_foo :: FileSystem where
  "fs_foo = \<lparr>cwd = ''/app'', componentsRoot = Dir [(''Foo.tsx'', File)],
              readFile = [''/app/src/components/Foo.tsx'' \<mapsto> one_line_interface]\<rparr>"

definition card_source :: string where
  "card_source =
     ''interface CardProps {'' @ [CHR 0x0A] @ ''  title: string;'' @ [CHR 0x0A]
       @ ''  example?: string;'' @ [CHR 0x0A] @ ''}''"

definition fs_card :: FileSystem where
  "fs_card = \<lparr>cwd = ''/app'', componentsRoot = Dir [(''Card.tsx'', File)],
               readFile = [''/app/src/components/Card.tsx'' \<mapsto> card_source]\<rparr>"

definition foo_realistic_before :: string where
  "foo_realistic_before = ''import React from 'react';'' @ [CHR 0x0A, CHR 0x0A]"

definition foo_realistic_after :: string where
  "foo_realistic_after =
     [CHR 0x0A, CHR 0x0A] @ ''export default function Foo({ bar }: FooProps) {'' @ [CHR 0x0A]
       @ ''  return <div>{bar}</div>;'' @ [CHR 0x0A] @ ''}'' @ [CHR 0x0A]"

definition two_interfaces :: string where
  "two_interfaces = ''interface AProps { x: number; } '' @ one_line_interface"

definition fs_foo_realistic :: FileSystem where
  "fs_foo_realistic = \<lparr>cwd = ''/app'', componentsRoot = Dir [(''Foo.tsx'', File)],
      readFile = [''/app/src/components/Foo.tsx'' \<mapsto>
                    foo_realistic_before @ one_line_interface @ foo_realistic_after]\<rparr>"

definition fs_button :: FileSystem where
  "fs_button = \<lparr>cwd = ''/app'', componentsRoot = Dir [(''Button.tsx'', File)],
      readFile = [''/app/src/components/Button.tsx'' \<mapsto> one_line_interface]\<rparr>"

definition fs_two_interfaces :: FileSystem where
  "fs_two_interfaces = \<lparr>cwd = ''/app'', componentsRoot = Dir [(''Foo.tsx'', File)],
      readFile = [''/app/src/components/Foo.tsx'' \<mapsto> two_interfaces]\<rparr>"

definition fs_panels :: FileSystem where
  "fs_panels = \<lparr>cwd = ''/app'',
      componentsRoot = Dir [(''ui'', Dir [(''Button.tsx'', File)]),
                            (''QuickUIPanel.ts'', File), (''Foo.tsx'', File)],
      readFile = (\<lambda>p. None)\<rparr>"

definition foo_loaded :: Process where
  "foo_loaded =
     snd (acts [Arrive 0 ReadAllComponents, LoadDone 0 fs_foo, Resume 0] initial_process)"

definition with_defaults :: ComponentMCPServer where
  "with_defaults = \<lparr>componentsCache = getDefaultComponents\<rparr>"

definition example_uuid :: string where
  "example_uuid = ''123e4567-e89b-42d3-a456-426614174000''"

definition other_uuid :: string where
  "other_uuid = ''9b2e4c1a-0f3d-4e5b-8a6c-7d8e9f0a1b2c''"

section \<open>Facts about strings\<close>

lemma includes_iff: "str_includes s sub \<longleftrightarrow> (\<exists>pre suf. s = pre @ sub @ suf)"
proof (induction s)
  case Nil
  then show ?case by auto
next
  case (Cons c cs)
  show ?case
  proof
    assume "str_includes (c # cs) sub"
    then consider "prefix sub (c # cs)" | "str_includes cs sub" by auto
    then show "\<exists>pre suf. c # cs = pre @ sub @ suf"
    proof cases
      case 1
      then obtain suf where "c # cs = sub @ suf" by (auto simp: prefix_def)
      then have "c # cs = [] @ sub @ suf" by simp
      then show ?thesis by blast
    next
      case 2
      with Cons.IH obtain pre suf where "cs = pre @ sub @ suf" by blast
      then have "c # cs = (c # pre) @ sub @ suf" by simp
      then show ?thesis by blast
    qed
  next
    assume "\<exists>pre suf. c # cs = pre @ sub @ suf"
    then obtain pre suf where eq: "c # cs = pre @ sub @ suf" by blast
    show "str_includes (c # cs) sub"
    proof (cases pre)
      case Nil
      with eq have "prefix sub (c # cs)" by (simp add: prefix_def)
      then show ?thesis by simp
    next
      case (Cons p pre')
      with eq have "cs = pre' @ sub @ suf" by simp
      with Cons.IH have "str_includes cs sub" by blast
      then show ?thesis by simp
    qed
  qed
qed

lemma includes_append_left: "str_includes s sub \<Longrightarrow> str_includes (pre @ s) sub"
  by (induction pre) auto

lemma includes_append_right: "str_includes s sub \<Longrightarrow> str_includes (s @ suf) sub"
proof -
  assume "str_includes s sub"
  then obtain p q where "s = p @ sub @ q" by (auto simp: includes_iff)
  then have "s @ suf = p @ sub @ (q @ suf)" by simp
  then show ?thesis unfolding includes_iff by blast
qed

lemma includes_self: "str_includes s s"
proof -
  have "s = [] @ s @ []" by simp
  then show ?thesis unfolding includes_iff by blast
qed



section \<open>Facts about the usage string\<close>

lemma join_space_concat:
  "xs \<noteq> [] \<Longrightarrow> '' '' @ join '' '' xs = concat (map (\<lambda>x. '' '' @ x) xs)"
  by (induction "'' ''" xs rule: join.induct) auto

lemma join_nonempty: "xs \<noteq> [] \<Longrightarrow> hd xs \<noteq> [] \<Longrightarrow> join sep xs \<noteq> []"
  by (induction sep xs rule: join.induct) auto

lemma prop_fragment_nonempty: "prop_fragment e \<noteq> []"
  by (simp add: prop_fragment_def)

lemma generateUsageExample_form:
  "generateUsageExample n ps =
     ''<'' @ n @ concat (map (\<lambda>e. '' '' @ prop_fragment e) (filter (\<lambda>e. \<not> optional (snd e)) ps)) @ '' />''"
proof (cases "filter (\<lambda>e. \<not> optional (snd e)) ps = []")
  case True
  then show ?thesis by (simp add: generateUsageExample_def)
next
  case False
  let ?fr = "map prop_fragment (filter (\<lambda>e. \<not> optional (snd e)) ps)"
  from False have ne: "?fr \<noteq> []" by simp
  then have "hd ?fr \<noteq> []" by (simp add: hd_map False prop_fragment_nonempty)
  with ne have j: "join '' '' ?fr \<noteq> []" by (rule join_nonempty)
  have "'' '' @ join '' '' ?fr = concat (map (\<lambda>x. '' '' @ x) ?fr)"
    using ne by (rule join_space_concat)
  also have "\<dots> = concat (map (\<lambda>e. '' '' @ prop_fragment e) (filter (\<lambda>e. \<not> optional (snd e)) ps))"
    by (simp add: comp_def)
  finally show ?thesis using j by (simp add: generateUsageExample_def Let_def)
qed

lemma includes_concat_member:
  "x \<in> set xs \<Longrightarrow> str_includes (concat (map f xs)) (f x)"
proof (induction xs)
  case Nil
  then show ?case by simp
next
  case (Cons a xs)
  show ?case
  proof (cases "x = a")
    case True
    then show ?thesis using includes_append_right[OF includes_self, of "f a"] by simp
  next
    case False
    with Cons have "str_includes (concat (map f xs)) (f x)" by simp
    then show ?thesis using includes_append_left by simp
  qed
qed

lemma includes_second_part: "str_includes s (a @ b) \<Longrightarrow> str_includes s b"
  unfolding includes_iff by (metis append.assoc)

lemma usage_of_parseComponent:
  "usage (parseComponent fs filePath) =
     generateUsageExample (name (parseComponent fs filePath)) (props (parseComponent fs filePath))"
  by (simp add: parseComponent_def generateUsageExample_def Let_def split: option.splits)

section \<open>Facts about the parser on the example sources\<close>

lemma extractProps_one_line:
  "extractProps one_line_interface = [(''bar'', \<lparr>ptype = ''string'', optional = False\<rparr>)]"
  unfolding one_line_interface_def by code_simp

lemma extractProps_card:
  "extractProps card_source =
     [(''title'', \<lparr>ptype = ''string'', optional = False\<rparr>),
      (''example'', \<lparr>ptype = ''string'', optional = True\<rparr>)]"
  unfolding card_source_def by code_simp

lemma usage_bar:
  "generateUsageExample n [(''bar'', \<lparr>ptype = ''string'', optional = False\<rparr>)]
     = ''<'' @ n @ '' bar={\"example\"} />''"
  by (simp add: generateUsageExample_def prop_fragment_def getExampleValue_def)

lemma usage_card:
  "generateUsageExample n
     [(''title'', \<lparr>ptype = ''string'', optional = False\<rparr>),
      (''example'', \<lparr>ptype = ''string'', optional = True\<rparr>)]
     = ''<'' @ n @ '' title={\"example\"} />''"
  by (simp add: generateUsageExample_def prop_fragment_def getExampleValue_def)

lemma componentName_foo: "componentName ''/app/src/components/Foo.tsx'' = ''Foo''"
  by code_simp

lemma componentName_card: "componentName ''/app/src/components/Card.tsx'' = ''Card''"
  by code_simp

lemma backtrack_one_line:
  "backtrack props_interface_re (one_line_interface @ suf) [] =
     [(suf, [(2, '' bar: string; baz?: number; ''), (1, ''FooProps'')])]"
  by (simp add: props_interface_re_def one_line_interface_def is_space_def is_word_def)

lemma str_match_skip:
  "no_match_before r pre rest \<Longrightarrow> str_match r (pre @ rest) = str_match r rest"
  by (induction pre) simp_all

lemma str_match_here:
  "s \<noteq> [] \<Longrightarrow> backtrack r s [] = (rest, cs) # others \<Longrightarrow>
   str_match r s = Some (take (length s - length rest) s, cs)"
  by (cases s) simp_all

lemma str_match_one_line:
  assumes "no_match_before props_interface_re pre (one_line_interface @ suf)"
  shows "str_match props_interface_re (pre @ one_line_interface @ suf)
         = Some (one_line_interface, [(2, '' bar: string; baz?: number; ''), (1, ''FooProps'')])"
proof -
  have ne: "one_line_interface @ suf \<noteq> []" by (simp add: one_line_interface_def)
  have "str_match props_interface_re (one_line_interface @ suf)
        = Some (take (length (one_line_interface @ suf) - length suf) (one_line_interface @ suf),
                [(2, '' bar: string; baz?: number; ''), (1, ''FooProps'')])"
    using str_match_here[OF ne backtrack_one_line] .
  then show ?thesis using str_match_skip[OF assms] by simp
qed

lemma prop_lines_one_line:
  "foldl parsePropLine []
     (map trim (filter (\<lambda>line. trim line \<noteq> [] \<and> \<not> startsWith (trim line) ''//'')
        (split CHR 0x0A '' bar: string; baz?: number; '')))
   = [(''bar'', \<lparr>ptype = ''string'', optional = False\<rparr>)]"
  by code_simp

lemma extractProps_of_match:
  "str_match props_interface_re content = Some (m0, cs) \<Longrightarrow> map_of cs 2 = Some propsContent \<Longrightarrow>
   extractProps content =
     foldl parsePropLine []
       (map trim (filter (\<lambda>line. trim line \<noteq> [] \<and> \<not> startsWith (trim line) ''//'')
          (split CHR 0x0A propsContent)))"
  by (simp add: extractProps_def group_def)

lemma extractProps_containing_one_line:
  assumes "no_match_before props_interface_re pre (one_line_interface @ suf)"
  shows "extractProps (pre @ one_line_interface @ suf)
         = [(''bar'', \<lparr>ptype = ''string'', optional = False\<rparr>)]"
proof -
  have "extractProps (pre @ one_line_interface @ suf) =
     foldl parsePropLine []
       (map trim (filter (\<lambda>line. trim line \<noteq> [] \<and> \<not> startsWith (trim line) ''//'')
          (split CHR 0x0A '' bar: string; baz?: number; '')))"
    by (rule extractProps_of_match[OF str_match_one_line[OF assms]]) simp
  then show ?thesis by (simp only: prop_lines_one_line)
qed

lemma no_match_realistic:
  "no_match_before props_interface_re foo_realistic_before (one_line_interface @ foo_realistic_after)"
  by code_simp

lemma no_match_empty: "no_match_before props_interface_re [] (one_line_interface @ [])"
  by simp

lemma extractProps_two_interfaces:
  "extractProps two_interfaces = [(''x'', \<lparr>ptype = ''number'', optional = False\<rparr>)]"
  by code_simp

lemma componentName_button: "componentName ''/app/src/components/Button.tsx'' = ''Button''"
  by code_simp

lemma usage_x:
  "generateUsageExample n [(''x'', \<lparr>ptype = ''number'', optional = False\<rparr>)]
     = ''<'' @ n @ '' x={42} />''"
  by (simp add: generateUsageExample_def prop_fragment_def getExampleValue_def)


section \<open>Facts about the cache\<close>

text \<open>A request that is handled alone, from its arrival to its end.\<close>

lemma handle_respond:
  "handle fs req s =
     (respond req (if reads_cache req then ensureLoaded fs s else s),
      if reads_cache req then ensureLoaded fs s else s)"
  by (cases req)
    (auto simp: getComponents_def getComponentByName_def readAllComponents_def
       readComponent_def Let_def split: option.splits)

lemma act_settled:
  assumes "componentsCache (server p) \<noteq> []" "loading p = []"
  shows "server (snd (act a p)) = server p \<and> loading (snd (act a p)) = []
         \<and> (fst (act a p) = None \<or> (\<exists>req. fst (act a p) = Some (respond req (server p))))"
  using assms by (cases a) (auto split: option.splits)

lemma acts_settled:
  "componentsCache (server p) \<noteq> [] \<Longrightarrow> loading p = [] \<Longrightarrow>
   server (snd (acts as p)) = server p \<and> loading (snd (acts as p)) = []
   \<and> (\<forall>r \<in> set (fst (acts as p)). r = None \<or> (\<exists>req. r = Some (respond req (server p))))"
proof (induction as arbitrary: p)
  case Nil
  then show ?case by simp
next
  case (Cons a as)
  let ?p = "snd (act a p)"
  from act_settled[OF Cons.prems, of a]
  have st: "server ?p = server p" "loading ?p = []"
    and r: "fst (act a p) = None \<or> (\<exists>req. fst (act a p) = Some (respond req (server p)))"
    by simp_all
  have "componentsCache (server ?p) \<noteq> []" using st(1) Cons.prems(1) by simp
  from Cons.IH[OF this st(2)] st(1)
  have ih: "server (snd (acts as ?p)) = server p" "loading (snd (acts as ?p)) = []"
    "\<forall>r \<in> set (fst (acts as ?p)). r = None \<or> (\<exists>req. r = Some (respond req (server p)))"
    by simp_all
  show ?case using r ih by (simp add: split_beta)
qed

section \<open>Facts about scanned paths\<close>

lemma joined_simps [simp]: "joined [] = []" "joined (n # ns) = CHR ''/'' # n @ joined ns"
  by (simp_all add: joined_def)

lemma split_no_sep: "c \<notin> set a \<Longrightarrow> split c a = [a]"
  by (induction a) auto

lemma split_at_sep: "c \<notin> set a \<Longrightarrow> split c (a @ c # rest) = a # split c rest"
  by (induction a) auto

lemma split_joined:
  "CHR ''/'' \<notin> set a \<Longrightarrow> \<forall>n \<in> set names. CHR ''/'' \<notin> set n \<Longrightarrow>
   split CHR ''/'' (a @ joined names) = a # names"
proof (induction names arbitrary: a)
  case Nil
  then show ?case by (simp add: split_no_sep)
next
  case (Cons n ns)
  then have "split CHR ''/'' (n @ joined ns) = n # ns" by simp
  with Cons.prems(1) show ?case by (simp add: split_at_sep)
qed

lemma not_includes_sep: "c \<notin> set a \<Longrightarrow> \<not> str_includes a (c # sub)"
  by (induction a) auto

lemma includes_past_sep:
  "c \<notin> set a \<Longrightarrow>
   str_includes (a @ c # rest) (c # sub) \<longleftrightarrow> prefix sub rest \<or> str_includes rest (c # sub)"
  by (induction a) auto

lemma prefix_segment:
  "c \<notin> set seg \<Longrightarrow> c \<notin> set n \<Longrightarrow> y = [] \<or> hd y = c \<Longrightarrow>
   prefix (seg @ c # x) (n @ y) \<longleftrightarrow> seg = n \<and> prefix (c # x) y"
proof (induction seg arbitrary: n)
  case Nil
  then show ?case by (cases n) auto
next
  case (Cons s seg)
  show ?case
  proof (cases n)
    case Nil
    then show ?thesis using Cons.prems
      by (cases y) auto
  next
    case (Cons m n')
    then show ?thesis using Cons.IH[of n'] Cons.prems by auto
  qed
qed

lemma joined_starts_with_sep: "joined ns = [] \<or> hd (joined ns) = CHR ''/''"
  by (cases ns) auto

lemma prefix_sep_joined: "prefix [CHR ''/''] (joined ns) \<longleftrightarrow> ns \<noteq> []"
  by (cases ns) auto

lemma includes_joined:
  "CHR ''/'' \<notin> set a \<Longrightarrow> \<forall>n \<in> set names. CHR ''/'' \<notin> set n \<Longrightarrow> CHR ''/'' \<notin> set seg \<Longrightarrow>
   str_includes (a @ joined names) (CHR ''/'' # seg @ [CHR ''/'']) \<longleftrightarrow> seg \<in> set (butlast names)"
proof (induction names arbitrary: a)
  case Nil
  then show ?case by (simp add: not_includes_sep)
next
  case (Cons n ns)
  have n: "CHR ''/'' \<notin> set n" and ns: "\<forall>m \<in> set ns. CHR ''/'' \<notin> set m"
    using Cons.prems(2) by simp_all
  have "str_includes (a @ joined (n # ns)) (CHR ''/'' # seg @ [CHR ''/''])
        \<longleftrightarrow> prefix (seg @ [CHR ''/'']) (n @ joined ns)
            \<or> str_includes (n @ joined ns) (CHR ''/'' # seg @ [CHR ''/''])"
    using includes_past_sep[OF Cons.prems(1)] by simp
  also have "prefix (seg @ [CHR ''/'']) (n @ joined ns) \<longleftrightarrow> seg = n \<and> ns \<noteq> []"
    using prefix_segment[OF Cons.prems(3) n joined_starts_with_sep, of "[]" ns] prefix_sep_joined by simp
  also have "str_includes (n @ joined ns) (CHR ''/'' # seg @ [CHR ''/'']) \<longleftrightarrow> seg \<in> set (butlast ns)"
    using Cons.IH[OF n ns Cons.prems(3)] .
  finally show ?case by auto
qed

lemma path_join_not_root: "nm \<noteq> [] \<Longrightarrow> path_join dir nm \<noteq> ''/''"
  by (cases nm) (auto simp: path_join_def append_eq_Cons_conv)

lemma scanned_below_step:
  assumes "scanned_below (path_join dir nm) f" "dir \<noteq> ''/''" "CHR ''/'' \<notin> set nm"
  shows "scanned_below dir f"
proof -
  from assms(1) obtain names where n: "names \<noteq> []" "\<forall>n \<in> set names. CHR ''/'' \<notin> set n"
      "endsWith (last names) ''.tsx'' \<or> endsWith (last names) ''.ts''"
      "f = path_join dir nm @ joined names"
    unfolding scanned_below_def by blast
  have "f = dir @ joined (nm # names)" using n(4) assms(2) by (simp add: path_join_def)
  moreover have "\<forall>n \<in> set (nm # names). CHR ''/'' \<notin> set n" using n(2) assms(3) by simp
  moreover have "last (nm # names) = last names" using n(1) by simp
  ultimately show ?thesis unfolding scanned_below_def using n(3)
    by (metis list.distinct(1))
qed

lemma scanned_below_file:
  assumes "endsWith nm ''.tsx'' \<or> endsWith nm ''.ts''" "dir \<noteq> ''/''" "CHR ''/'' \<notin> set nm"
  shows "scanned_below dir (path_join dir nm)"
proof -
  have "path_join dir nm = dir @ joined [nm]" using assms(2) by (simp add: path_join_def)
  then show ?thesis unfolding scanned_below_def using assms(1,3)
    by (intro exI[of _ "[nm]"]) simp
qed

lemma scan_below:
  "(wf_node nd \<longrightarrow> dir \<noteq> ''/'' \<longrightarrow> (\<forall>f \<in> set (scanForComponents dir nd). scanned_below dir f))"
  "(list_all (\<lambda>e. fst e \<noteq> [] \<and> CHR ''/'' \<notin> set (fst e) \<and> wf_node (snd e)) es \<longrightarrow> dir' \<noteq> ''/'' \<longrightarrow>
      (\<forall>f \<in> set (scanEntries dir' es). scanned_below dir' f))"
proof (induction dir nd and dir' es rule: scanForComponents_scanEntries.induct)
  case (6 dir e es)
  show ?case
  proof (intro impI ballI)
    fix f
    assume wf: "list_all (\<lambda>e. fst e \<noteq> [] \<and> CHR ''/'' \<notin> set (fst e) \<and> wf_node (snd e)) (e # es)"
      and dir: "dir \<noteq> ''/''" and f: "f \<in> set (scanEntries dir (e # es))"
    from wf have e: "fst e \<noteq> []" "CHR ''/'' \<notin> set (fst e)" "wf_node (snd e)"
      and es: "list_all (\<lambda>e. fst e \<noteq> [] \<and> CHR ''/'' \<notin> set (fst e) \<and> wf_node (snd e)) es" by simp_all
    from f consider
        (in_dir) "isDirectory (snd e)" "f \<in> set (scanForComponents (path_join dir (fst e)) (snd e))"
      | (is_file) "\<not> isDirectory (snd e)" "endsWith (fst e) ''.tsx'' \<or> endsWith (fst e) ''.ts''" "f = path_join dir (fst e)"
      | (later) "f \<in> set (scanEntries dir es)"
      by (auto simp: Let_def split: if_splits)
    then show "scanned_below dir f"
    proof cases
      case in_dir
      with "6.IH"(1)[OF refl in_dir(1)] e path_join_not_root[OF e(1)]
      have "scanned_below (path_join dir (fst e)) f" by blast
      then show ?thesis using dir e(2) by (rule scanned_below_step)
    next
      case is_file
      then show ?thesis using scanned_below_file[OF is_file(2) dir e(2)] by simp
    next
      case later
      with "6.IH"(2)[OF refl] es dir show ?thesis by blast
    qed
  qed
qed simp_all


lemma componentsDir_not_root: "componentsDir fs \<noteq> ''/''"
  by (simp add: componentsDir_def path_join_not_root)

lemma relative_below_componentsDir:
  "names \<noteq> [] \<Longrightarrow>
   path_relative (cwd fs) (componentsDir fs @ joined names) = ''src/components'' @ joined names"
proof (cases "cwd fs = ''/''")
  case True
  assume "names \<noteq> []"
  show ?thesis using True by (simp add: path_relative_def componentsDir_def path_join_def)
next
  case False
  assume "names \<noteq> []"
  have "componentsDir fs @ joined names = cwd fs @ ''/'' @ (''src/components'' @ joined names)"
    using False by (simp add: componentsDir_def path_join_def)
  moreover have "cwd fs \<noteq> cwd fs @ ''/'' @ (''src/components'' @ joined names)" by simp
  ultimately show ?thesis using False
    by (simp add: path_relative_def)
qed

lemma path_of_parseComponent: "path (parseComponent fs f) = path_relative (cwd fs) f"
  by (simp add: parseComponent_def Let_def split: option.splits)

lemma loaded_paths_ok:
  assumes "wf_node (componentsRoot fs)"
  shows "\<forall>r \<in> set (componentsCache (loadComponents fs s)). record_path_ok (path r)"
proof
  fix r assume "r \<in> set (componentsCache (loadComponents fs s))"
  then obtain f where f: "f \<in> set (scanForComponents (componentsDir fs) (componentsRoot fs))"
    and r: "r = parseComponent fs f" by (auto simp: loadComponents_def)
  from scan_below(1)[of "componentsRoot fs" "componentsDir fs"] assms componentsDir_not_root f
  have "scanned_below (componentsDir fs) f" by blast
  then obtain names where n: "names \<noteq> []" "\<forall>n \<in> set names. CHR ''/'' \<notin> set n"
      "endsWith (last names) ''.tsx'' \<or> endsWith (last names) ''.ts''"
      "f = componentsDir fs @ joined names"
    unfolding scanned_below_def by blast
  have "path r = ''src/components'' @ joined names"
    using r n(4) relative_below_componentsDir[OF n(1)] by (simp add: path_of_parseComponent)
  with n show "record_path_ok (path r)" unfolding record_path_ok_def scanned_below_def by blast
qed

lemma ends_with_ts_not_category:
  "endsWith n ''.tsx'' \<or> endsWith n ''.ts'' \<Longrightarrow> cat \<in> {''ui'', ''layout'', ''forms''} \<Longrightarrow> n \<noteq> cat"
  by (auto simp: endsWith_def suffix_to_prefix)

lemma segment_iff_includes:
  assumes "record_path_ok p" "cat \<in> {''ui'', ''layout'', ''forms''}"
  shows "has_segment p cat \<longleftrightarrow> str_includes p (''/'' @ cat @ ''/'')"
proof -
  from assms(1) obtain names where n: "names \<noteq> []" "\<forall>n \<in> set names. CHR ''/'' \<notin> set n"
      "endsWith (last names) ''.tsx'' \<or> endsWith (last names) ''.ts''"
      "p = ''src/components'' @ joined names"
    unfolding record_path_ok_def scanned_below_def by blast
  have cat: "CHR ''/'' \<notin> set cat" "cat \<noteq> ''src''" "cat \<noteq> ''components''" using assms(2) by auto
  have p: "p = ''src'' @ joined (''components'' # names)" using n(4) by simp
  have all: "\<forall>m \<in> set (''components'' # names). CHR ''/'' \<notin> set m" using n(2) by simp
  have "split CHR ''/'' p = ''src'' # ''components'' # names"
    unfolding p by (rule split_joined[OF _ all]) simp
  then have "has_segment p cat \<longleftrightarrow> cat \<in> set names" using cat by (simp add: has_segment_def)
  also have "\<dots> \<longleftrightarrow> cat \<in> set (butlast names)"
  proof -
    have "set names = insert (last names) (set (butlast names))"
      using n(1) by (metis append_butlast_last_id list.simps(15) set_append Un_insert_right sup_bot.right_neutral list.set(1))
    moreover have "last names \<noteq> cat" using ends_with_ts_not_category[OF n(3) assms(2)] .
    ultimately show ?thesis by auto
  qed
  also have "\<dots> \<longleftrightarrow> cat \<in> set (butlast (''components'' # names))" using n(1) cat by simp
  also have "\<dots> \<longleftrightarrow> str_includes (''src'' @ joined (''components'' # names)) (CHR ''/'' # cat @ [CHR ''/''])"
    by (rule includes_joined[symmetric, OF _ all cat(1)]) simp
  finally show ?thesis unfolding p by simp
qed

lemma act_paths_ok:
  assumes "wf_action a" "\<forall>r \<in> set (componentsCache (server p)). record_path_ok (path r)"
  shows "\<forall>r \<in> set (componentsCache (server (snd (act a p)))). record_path_ok (path r)"
proof (cases a)
  case (Arrive i req)
  then show ?thesis using assms(2) by simp
next
  case (LoadDone i fs)
  then have "wf_node (componentsRoot fs)" using assms(1) by simp
  from loaded_paths_ok[OF this] show ?thesis using LoadDone assms(2)
    by (simp split: option.splits)
next
  case (Resume i)
  then show ?thesis using assms(2) by (simp split: option.splits)
qed

lemma acts_paths_ok:
  "list_all wf_action as \<Longrightarrow>
   \<forall>r \<in> set (componentsCache (server p)). record_path_ok (path r) \<Longrightarrow>
   \<forall>r \<in> set (componentsCache (server (snd (acts as p)))). record_path_ok (path r)"
proof (induction as arbitrary: p)
  case Nil
  then show ?case by simp
next
  case (Cons a as)
  have "\<forall>r \<in> set (componentsCache (server (snd (act a p)))). record_path_ok (path r)"
    using Cons.prems by (intro act_paths_ok) simp_all
  then have "\<forall>r \<in> set (componentsCache (server (snd (acts as (snd (act a p)))))). record_path_ok (path r)"
    using Cons.IH Cons.prems(1) by simp
  then show ?case by (simp add: split_beta)
qed

section \<open>Facts about letters\<close>

lemma of_char_lower:
  "(of_char (lower_char c) :: nat) =
     (if (65 \<le> (of_char c :: nat) \<and> (of_char c :: nat) \<le> 90)
         \<or> (192 \<le> (of_char c :: nat) \<and> (of_char c :: nat) \<le> 222 \<and> (of_char c :: nat) \<noteq> 215)
      then of_char c + 32 else of_char c)"
  by (simp add: lower_char_def Let_def)

lemma zip_ascii_pairs:
  "(c, d) \<in> set (zip capitals smalls)
   \<longleftrightarrow> d \<in> set smalls \<and> (of_char c :: nat) + 32 = of_char d"
proof -
  have k: "\<And>x y :: char. (x = y) = ((of_char x :: nat) = of_char y)" by simp
  show ?thesis
    unfolding capitals_def smalls_def by (simp del: of_char_eq_iff add: k) arith
qed

lemma small_codes: "d \<in> set smalls \<Longrightarrow> 97 \<le> (of_char d :: nat) \<and> (of_char d :: nat) \<le> 122"
  unfolding smalls_def by auto

lemma small_not_other:
  "d \<in> set smalls \<Longrightarrow>
   d \<notin> set capitals \<and> d \<notin> set accented_capitals \<and> d \<notin> set accented_smalls"
  using small_codes[of d]
  unfolding capitals_def accented_capitals_def accented_smalls_def
  by auto

lemma lower_char_small:
  assumes "d \<in> set smalls"
  shows "lower_char c = d \<longleftrightarrow> same_ignoring_case c d"
proof -
  have "lower_char c = d \<longleftrightarrow> (of_char (lower_char c) :: nat) = of_char d" by simp
  also have "\<dots> \<longleftrightarrow> (of_char c :: nat) = of_char d \<or> (of_char c :: nat) + 32 = of_char d"
    unfolding of_char_lower using small_codes[OF assms] by auto
  also have "\<dots> \<longleftrightarrow> c = d \<or> (c, d) \<in> set (zip capitals smalls)"
    using assms by (simp add: zip_ascii_pairs)
  also have "\<dots> \<longleftrightarrow> same_ignoring_case c d"
    using small_not_other[OF assms]
    unfolding same_ignoring_case_def letter_cases_def
    by (auto dest: set_zip_leftD set_zip_rightD)
  finally show ?thesis .
qed

lemma prefix_lower_iff:
  "set sub \<subseteq> set smalls \<Longrightarrow>
   prefix sub (toLowerCase s) \<longleftrightarrow> starts_ignoring_case s sub"
proof (induction s sub rule: starts_ignoring_case.induct)
  case (1 s)
  then show ?case by simp
next
  case (2 d ds)
  then show ?case by (simp add: toLowerCase_def)
next
  case (3 c cs d ds)
  then have "lower_char c = d \<longleftrightarrow> same_ignoring_case c d" by (intro lower_char_small) simp
  moreover have "prefix ds (toLowerCase cs) \<longleftrightarrow> starts_ignoring_case cs ds" using 3 by simp
  ultimately show ?case by (auto simp: toLowerCase_def)
qed

lemma includes_lower_iff:
  "set sub \<subseteq> set smalls \<Longrightarrow>
   str_includes (toLowerCase s) sub \<longleftrightarrow> contains_ignoring_case s sub"
proof (induction s)
  case Nil
  then show ?case by (simp add: toLowerCase_def)
next
  case (Cons c cs)
  have "prefix sub (toLowerCase (c # cs)) \<longleftrightarrow> starts_ignoring_case (c # cs) sub"
    using Cons.prems by (rule prefix_lower_iff)
  moreover have "str_includes (toLowerCase cs) sub \<longleftrightarrow> contains_ignoring_case cs sub"
    using Cons by simp
  ultimately show ?case by (simp add: toLowerCase_def)
qed

lemma category_small:
  "cat \<in> {''ui'', ''layout'', ''forms''} \<Longrightarrow> set cat \<subseteq> set smalls"
  unfolding smalls_def by auto


lemma extractDependencies_one_line: "extractDependencies one_line_interface = []"
  unfolding one_line_interface_def by code_simp

lemma relative_foo: "path_relative ''/app'' ''/app/src/components/Foo.tsx'' = ''src/components/Foo.tsx''"
  by (simp add: path_relative_def)

lemma parse_fs_foo:
  "parseComponent fs_foo ''/app/src/components/Foo.tsx'' =
     \<lparr>name = ''Foo'', path = ''src/components/Foo.tsx'',
      props = [(''bar'', \<lparr>ptype = ''string'', optional = False\<rparr>)],
      usage = ''<Foo bar={\"example\"} />'', dependencies = Some []\<rparr>"
  by (simp add: parseComponent_def fs_foo_def extractProps_one_line usage_bar componentName_foo
      extractDependencies_one_line relative_foo)

section \<open>The claims\<close>

text \<open>
  C1, amended. When nothing lies at the component root directory, or it cannot be
  listed, or it is a file, or it is an empty directory, the load raises no error and
  stores the empty list; the two built-in default records are not stored, and the list
  resource read at start-up answers with the empty list.
\<close>

theorem load_of_absent_root_is_empty:
  assumes "componentsRoot fs = Missing \<or> componentsRoot fs = Unreadable
           \<or> componentsRoot fs = File \<or> componentsRoot fs = Dir []"
  shows "componentsCache (loadComponents fs s) = []
         \<and> componentsCache (loadComponents fs s) \<noteq> getDefaultComponents
         \<and> handle fs ReadAllComponents initial_server = (Inr (ComponentList []), initial_server)"
  using assms
  by (auto simp: loadComponents_def getDefaultComponents_def readAllComponents_def
      ensureLoaded_def initial_server_def Let_def)

theorem load_of_absent_root_is_empty_witness:
  "componentsRoot fs_missing = Missing
   \<and> componentsCache (loadComponents fs_missing initial_server) = []
   \<and> handle fs_missing ReadAllComponents initial_server = (Inr (ComponentList []), initial_server)"
  using load_of_absent_root_is_empty [of fs_missing initial_server]
  by (simp add: fs_missing_def)

theorem load_stores_no_defaults_counterexample:
  "componentsCache (loadComponents fs_missing initial_server) \<noteq> getDefaultComponents
   \<and> componentsCache (loadComponents fs_empty initial_server) \<noteq> getDefaultComponents"
  by (simp add: loadComponents_def fs_missing_def fs_empty_def getDefaultComponents_def)

text \<open>
  C2, amended. For every input file whose text contains
  \<^verbatim>\<open>interface FooProps { bar: string; baz?: number; }\<close>, with no match of the
  pattern for a props interface beginning before it, the parser extracts the first
  property of the line only: \<^verbatim>\<open>props\<close> is
  \<^verbatim>\<open>{bar: {type: "string", optional: false}}\<close>, and \<^verbatim>\<open>usage\<close> is
  \<^verbatim>\<open><N bar={"example"} />\<close>, where \<^verbatim>\<open>N\<close> is the base name of the file without
  its extension.
\<close>

theorem parse_file_containing_foo_props:
  assumes "readFile fs filePath = Some (pre @ one_line_interface @ suf)"
    and "no_match_before props_interface_re pre (one_line_interface @ suf)"
  shows "props (parseComponent fs filePath) = [(''bar'', \<lparr>ptype = ''string'', optional = False\<rparr>)]
         \<and> usage (parseComponent fs filePath) = ''<'' @ componentName filePath @ '' bar={\"example\"} />''"
  using assms(1) extractProps_containing_one_line[OF assms(2)]
  by (simp add: parseComponent_def usage_bar)


theorem parse_file_containing_foo_props_witness:
  "readFile fs_foo_realistic ''/app/src/components/Foo.tsx''
     = Some (foo_realistic_before @ one_line_interface @ foo_realistic_after)
   \<and> no_match_before props_interface_re foo_realistic_before
         (one_line_interface @ foo_realistic_after)
   \<and> props (parseComponent fs_foo_realistic ''/app/src/components/Foo.tsx'')
       = [(''bar'', \<lparr>ptype = ''string'', optional = False\<rparr>)]
   \<and> usage (parseComponent fs_foo_realistic ''/app/src/components/Foo.tsx'')
       = ''<Foo bar={\"example\"} />''"
proof -
  have a: "readFile fs_foo_realistic ''/app/src/components/Foo.tsx''
     = Some (foo_realistic_before @ one_line_interface @ foo_realistic_after)"
    by (simp add: fs_foo_realistic_def)
  show ?thesis
    using a no_match_realistic parse_file_containing_foo_props [OF a no_match_realistic]
    by (simp add: componentName_foo)
qed

theorem parse_foo_one_line_counterexample:
  "readFile fs_foo ''/app/src/components/Foo.tsx''
     = Some ''interface FooProps { bar: string; baz?: number; }''
   \<and> props (parseComponent fs_foo ''/app/src/components/Foo.tsx'')
       = [(''bar'', \<lparr>ptype = ''string'', optional = False\<rparr>)]
   \<and> usage (parseComponent fs_foo ''/app/src/components/Foo.tsx'') = ''<Foo bar={\"example\"} />''
   \<and> usage (parseComponent fs_foo ''/app/src/components/Foo.tsx'') \<noteq> ''<Foo bar=\"example\" />''
   \<and> readFile fs_button ''/app/src/components/Button.tsx''
       = Some ''interface FooProps { bar: string; baz?: number; }''
   \<and> usage (parseComponent fs_button ''/app/src/components/Button.tsx'')
       = ''<Button bar={\"example\"} />''
   \<and> readFile fs_two_interfaces ''/app/src/components/Foo.tsx''
       = Some ''interface AProps { x: number; } interface FooProps { bar: string; baz?: number; }''
   \<and> props (parseComponent fs_two_interfaces ''/app/src/components/Foo.tsx'')
       = [(''x'', \<lparr>ptype = ''number'', optional = False\<rparr>)]"
proof -
  have b: "usage (parseComponent fs_button ''/app/src/components/Button.tsx'')
       = ''<Button bar={\"example\"} />''"
    by (simp add: parseComponent_def fs_button_def extractProps_one_line usage_bar
        componentName_button)
  have t: "props (parseComponent fs_two_interfaces ''/app/src/components/Foo.tsx'')
       = [(''x'', \<lparr>ptype = ''number'', optional = False\<rparr>)]"
    by (simp add: parseComponent_def fs_two_interfaces_def extractProps_two_interfaces Let_def)
  have r: "readFile fs_foo ''/app/src/components/Foo.tsx''
             = Some ''interface FooProps { bar: string; baz?: number; }''"
    "readFile fs_button ''/app/src/components/Button.tsx''
       = Some ''interface FooProps { bar: string; baz?: number; }''"
    "readFile fs_two_interfaces ''/app/src/components/Foo.tsx''
       = Some ''interface AProps { x: number; } interface FooProps { bar: string; baz?: number; }''"
    by (simp_all add: fs_foo_def fs_button_def fs_two_interfaces_def two_interfaces_def
        one_line_interface_def)
  show ?thesis using b t r by (simp add: parse_fs_foo)
qed

text \<open>
  C3, amended. A call or resource read that arrives while the stored list is not empty
  starts no load, is answered at once from the stored list and leaves it as it is; and
  once the list is not empty and no load is still under way, the list stays the same
  for the rest of the process, every answer is computed from it, and the scanner and
  the parser do not run again. A call that reads the cache and arrives while the list
  is empty, be it before a first load is done or after a load that produced the empty
  list, starts a load of its own; and every load, when it is done, replaces the stored
  list with its result.
\<close>

theorem populated_cache_is_kept:
  assumes "componentsCache (server p) \<noteq> []"
  shows "act (Arrive i req) p = (Some (respond req (server p)), p)
         \<and> (loading p = [] \<longrightarrow>
              server (snd (acts as p)) = server p \<and> loading (snd (acts as p)) = []
              \<and> (\<forall>r \<in> set (fst (acts as p)).
                    r = None \<or> (\<exists>req'. r = Some (respond req' (server p)))))
         \<and> (componentsCache (server q) = [] \<and> reads_cache req' \<longrightarrow>
              act (Arrive j req') q = (None, q\<lparr>loading := loading q @ [(j, req')]\<rparr>))
         \<and> (map_of (loading q) k = Some req'' \<longrightarrow>
              server (snd (act (LoadDone k fs) q)) = loadComponents fs (server q))"
  using assms acts_settled[of p as] by simp


lemma foo_loaded_state:
  "foo_loaded =
     \<lparr>server = \<lparr>componentsCache =
         [\<lparr>name = ''Foo'', path = ''src/components/Foo.tsx'',
           props = [(''bar'', \<lparr>ptype = ''string'', optional = False\<rparr>)],
           usage = ''<Foo bar={\"example\"} />'', dependencies = Some []\<rparr>]\<rparr>,
      loading = [], resuming = []\<rparr>"
  by code_simp

theorem populated_cache_is_kept_witness:
  "componentsCache (server foo_loaded) \<noteq> [] \<and> loading foo_loaded = []
   \<and> act (Arrive 1 ReadAllComponents) foo_loaded
       = (Some (respond ReadAllComponents (server foo_loaded)), foo_loaded)
   \<and> server (snd (acts [Arrive 1 ReadAllComponents, LoadDone 1 fs_card, Resume 1] foo_loaded))
       = server foo_loaded
   \<and> componentsCache (server initial_process) = [] \<and> reads_cache ReadAllComponents
   \<and> act (Arrive 0 ReadAllComponents) initial_process
       = (None, initial_process\<lparr>loading := loading initial_process @ [(0, ReadAllComponents)]\<rparr>)
   \<and> map_of (loading (snd (act (Arrive 0 ReadAllComponents) initial_process))) 0
       = Some ReadAllComponents
   \<and> server (snd (act (LoadDone 0 fs_foo) (snd (act (Arrive 0 ReadAllComponents) initial_process))))
       = loadComponents fs_foo (server (snd (act (Arrive 0 ReadAllComponents) initial_process)))"
proof -
  have a: "componentsCache (server foo_loaded) \<noteq> []" by (simp add: foo_loaded_state)
  have l: "loading foo_loaded = []" by (simp add: foo_loaded_state)
  have e: "componentsCache (server initial_process) = []" "reads_cache ReadAllComponents"
    by (simp_all add: initial_process_def initial_server_def)
  have m: "map_of (loading (snd (act (Arrive 0 ReadAllComponents) initial_process))) 0
       = Some ReadAllComponents"
    by (simp add: initial_process_def initial_server_def)
  show ?thesis
    using a l e m
      populated_cache_is_kept [OF a, where i = 1 and req = ReadAllComponents
        and as = "[Arrive 1 ReadAllComponents, LoadDone 1 fs_card, Resume 1]"
        and q = initial_process and req' = ReadAllComponents and j = 0]
      populated_cache_is_kept [OF a, where k = 0 and req'' = ReadAllComponents and fs = fs_foo
        and q = "snd (act (Arrive 0 ReadAllComponents) initial_process)"]
    by simp
qed

lemma empty_load_repeated:
  "fst (acts [Arrive 0 ReadAllComponents, LoadDone 0 fs_missing, Resume 0,
              Arrive 1 ReadAllComponents, LoadDone 1 fs_foo, Resume 1] initial_process)
     = [None, None, Some (Inr (ComponentList [])),
        None, None,
        Some (Inr (ComponentList
          [\<lparr>name = ''Foo'', path = ''src/components/Foo.tsx'',
            props = [(''bar'', \<lparr>ptype = ''string'', optional = False\<rparr>)],
            usage = ''<Foo bar={\"example\"} />'', dependencies = Some []\<rparr>]))]"
  by code_simp

lemma second_load_replaces:
  "fst (acts [Arrive 0 ReadAllComponents, Arrive 1 ReadAllComponents,
              LoadDone 0 fs_foo, Resume 0, Arrive 2 ReadAllComponents,
              LoadDone 1 fs_card, Resume 1, Arrive 3 ReadAllComponents] initial_process)
     = [None, None, None,
        Some (Inr (ComponentList
          [\<lparr>name = ''Foo'', path = ''src/components/Foo.tsx'',
            props = [(''bar'', \<lparr>ptype = ''string'', optional = False\<rparr>)],
            usage = ''<Foo bar={\"example\"} />'', dependencies = Some []\<rparr>])),
        Some (Inr (ComponentList
          [\<lparr>name = ''Foo'', path = ''src/components/Foo.tsx'',
            props = [(''bar'', \<lparr>ptype = ''string'', optional = False\<rparr>)],
            usage = ''<Foo bar={\"example\"} />'', dependencies = Some []\<rparr>])),
        None,
        Some (Inr (ComponentList
          [\<lparr>name = ''Card'', path = ''src/components/Card.tsx'',
            props = [(''title'', \<lparr>ptype = ''string'', optional = False\<rparr>),
                     (''example'', \<lparr>ptype = ''string'', optional = True\<rparr>)],
            usage = ''<Card title={\"example\"} />'', dependencies = Some []\<rparr>])),
        Some (Inr (ComponentList
          [\<lparr>name = ''Card'', path = ''src/components/Card.tsx'',
            props = [(''title'', \<lparr>ptype = ''string'', optional = False\<rparr>),
                     (''example'', \<lparr>ptype = ''string'', optional = True\<rparr>)],
            usage = ''<Card title={\"example\"} />'', dependencies = Some []\<rparr>]))]"
  by code_simp

theorem stored_list_is_replaced_counterexample:
  "fst (acts [Arrive 0 ReadAllComponents, LoadDone 0 fs_missing, Resume 0,
              Arrive 1 ReadAllComponents, LoadDone 1 fs_foo, Resume 1] initial_process)
     = [None, None, Some (Inr (ComponentList [])),
        None, None,
        Some (Inr (ComponentList
          [\<lparr>name = ''Foo'', path = ''src/components/Foo.tsx'',
            props = [(''bar'', \<lparr>ptype = ''string'', optional = False\<rparr>)],
            usage = ''<Foo bar={\"example\"} />'', dependencies = Some []\<rparr>]))]
   \<and> fst (acts [Arrive 0 ReadAllComponents, Arrive 1 ReadAllComponents,
                LoadDone 0 fs_foo, Resume 0, Arrive 2 ReadAllComponents,
                LoadDone 1 fs_card, Resume 1, Arrive 3 ReadAllComponents] initial_process)
     = [None, None, None,
        Some (Inr (ComponentList
          [\<lparr>name = ''Foo'', path = ''src/components/Foo.tsx'',
            props = [(''bar'', \<lparr>ptype = ''string'', optional = False\<rparr>)],
            usage = ''<Foo bar={\"example\"} />'', dependencies = Some []\<rparr>])),
        Some (Inr (ComponentList
          [\<lparr>name = ''Foo'', path = ''src/components/Foo.tsx'',
            props = [(''bar'', \<lparr>ptype = ''string'', optional = False\<rparr>)],
            usage = ''<Foo bar={\"example\"} />'', dependencies = Some []\<rparr>])),
        None,
        Some (Inr (ComponentList
          [\<lparr>name = ''Card'', path = ''src/components/Card.tsx'',
            props = [(''title'', \<lparr>ptype = ''string'', optional = False\<rparr>),
                     (''example'', \<lparr>ptype = ''string'', optional = True\<rparr>)],
            usage = ''<Card title={\"example\"} />'', dependencies = Some []\<rparr>])),
        Some (Inr (ComponentList
          [\<lparr>name = ''Card'', path = ''src/components/Card.tsx'',
            props = [(''title'', \<lparr>ptype = ''string'', optional = False\<rparr>),
                     (''example'', \<lparr>ptype = ''string'', optional = True\<rparr>)],
            usage = ''<Card title={\"example\"} />'', dependencies = Some []\<rparr>]))]"
  using empty_load_repeated second_load_replaces by (rule conjI)

text \<open>
  C4. In every state the process reaches from start-up, over file systems whose entry
  names are not empty and hold no separator, \<^verbatim>\<open>get_components("all")\<close> returns a
  list as long as the cache, and \<^verbatim>\<open>get_components(cat)\<close> for \<^verbatim>\<open>cat\<close> among
  \<^verbatim>\<open>ui\<close>, \<^verbatim>\<open>layout\<close> and \<^verbatim>\<open>forms\<close> returns exactly the cached records whose path
  has a segment equal to \<^verbatim>\<open>cat\<close> or whose name contains \<^verbatim>\<open>cat\<close> when case is
  ignored.
\<close>

theorem get_components_by_category:
  assumes "list_all wf_action as"
  shows "(category = ''all'' \<longrightarrow>
            (\<exists>cs. respond (CallGetComponents category) (server (snd (acts as initial_process)))
                     = Inr (ComponentsWithGuidelines cs)
                   \<and> length cs = length (componentsCache (server (snd (acts as initial_process))))))
         \<and> (category \<in> {''ui'', ''layout'', ''forms''} \<longrightarrow>
              respond (CallGetComponents category) (server (snd (acts as initial_process)))
                = Inr (ComponentsWithGuidelines
                    (filter (\<lambda>c. has_segment (path c) category
                                  \<or> contains_ignoring_case (name c) category)
                       (componentsCache (server (snd (acts as initial_process)))))))"
proof -
  let ?s = "server (snd (acts as initial_process))"
  have ok: "\<forall>r \<in> set (componentsCache ?s). record_path_ok (path r)"
    using acts_paths_ok[OF assms, of initial_process]
    by (simp add: initial_process_def initial_server_def)
  have filt: "category \<in> {''ui'', ''layout'', ''forms''} \<Longrightarrow>
     filter (\<lambda>c. str_includes (path c) (''/'' @ category @ ''/'')
                  \<or> str_includes (toLowerCase (name c)) category) (componentsCache ?s)
     = filter (\<lambda>c. has_segment (path c) category \<or> contains_ignoring_case (name c) category)
         (componentsCache ?s)"
    using ok segment_iff_includes includes_lower_iff[OF category_small]
    by (intro filter_cong refl) simp
  show ?thesis
    using filt by auto
qed

lemma acts_fs_panels:
  "componentsCache (server (snd (acts [Arrive 0 ReadAllComponents, LoadDone 0 fs_panels, Resume 0]
      initial_process)))
   = [\<lparr>name = ''Button'', path = ''src/components/ui/Button.tsx'', props = [],
        usage = ''<Button />'', dependencies = None\<rparr>,
      \<lparr>name = ''QuickUIPanel'', path = ''src/components/QuickUIPanel.ts'', props = [],
        usage = ''<QuickUIPanel />'', dependencies = None\<rparr>,
      \<lparr>name = ''Foo'', path = ''src/components/Foo.tsx'', props = [],
        usage = ''<Foo />'', dependencies = None\<rparr>]"
  by code_simp

lemma respond_fs_panels:
  "respond (CallGetComponents ''ui'')
     (server (snd (acts [Arrive 0 ReadAllComponents, LoadDone 0 fs_panels, Resume 0]
        initial_process)))
   = Inr (ComponentsWithGuidelines
       [\<lparr>name = ''Button'', path = ''src/components/ui/Button.tsx'', props = [],
          usage = ''<Button />'', dependencies = None\<rparr>,
        \<lparr>name = ''QuickUIPanel'', path = ''src/components/QuickUIPanel.ts'', props = [],
          usage = ''<QuickUIPanel />'', dependencies = None\<rparr>])"
  by code_simp

lemma panel_halves:
  "has_segment ''src/components/ui/Button.tsx'' ''ui''"
  "\<not> contains_ignoring_case ''Button'' ''ui''"
  "\<not> has_segment ''src/components/QuickUIPanel.ts'' ''ui''"
  "contains_ignoring_case ''QuickUIPanel'' ''ui''"
  "\<not> has_segment ''src/components/Foo.tsx'' ''ui''"
  "\<not> contains_ignoring_case ''Foo'' ''ui''"
  by code_simp+

theorem get_components_by_category_witness:
  "list_all wf_action [Arrive 0 ReadAllComponents, LoadDone 0 fs_panels, Resume 0]
   \<and> respond (CallGetComponents ''ui'')
       (server (snd (acts [Arrive 0 ReadAllComponents, LoadDone 0 fs_panels, Resume 0]
          initial_process)))
     = Inr (ComponentsWithGuidelines
         [\<lparr>name = ''Button'', path = ''src/components/ui/Button.tsx'', props = [],
            usage = ''<Button />'', dependencies = None\<rparr>,
          \<lparr>name = ''QuickUIPanel'', path = ''src/components/QuickUIPanel.ts'', props = [],
            usage = ''<QuickUIPanel />'', dependencies = None\<rparr>])
   \<and> has_segment ''src/components/ui/Button.tsx'' ''ui''
   \<and> \<not> contains_ignoring_case ''Button'' ''ui''
   \<and> \<not> has_segment ''src/components/QuickUIPanel.ts'' ''ui''
   \<and> contains_ignoring_case ''QuickUIPanel'' ''ui''
   \<and> \<not> has_segment ''src/components/Foo.tsx'' ''ui''
   \<and> \<not> contains_ignoring_case ''Foo'' ''ui''
   \<and> respond (CallGetComponents ''ui'')
       (server (snd (acts [Arrive 0 ReadAllComponents, LoadDone 0 fs_panels, Resume 0]
          initial_process)))
     = Inr (ComponentsWithGuidelines
         (filter (\<lambda>c. has_segment (path c) ''ui'' \<or> contains_ignoring_case (name c) ''ui'')
            (componentsCache
               (server (snd (acts [Arrive 0 ReadAllComponents, LoadDone 0 fs_panels, Resume 0]
                  initial_process))))))"
proof -
  have a: "list_all wf_action [Arrive 0 ReadAllComponents, LoadDone 0 fs_panels, Resume 0]"
    by (simp add: fs_panels_def)
  have c: "respond (CallGetComponents ''ui'')
       (server (snd (acts [Arrive 0 ReadAllComponents, LoadDone 0 fs_panels, Resume 0]
          initial_process)))
     = Inr (ComponentsWithGuidelines
         (filter (\<lambda>c. has_segment (path c) ''ui'' \<or> contains_ignoring_case (name c) ''ui'')
            (componentsCache
               (server (snd (acts [Arrive 0 ReadAllComponents, LoadDone 0 fs_panels, Resume 0]
                  initial_process))))))"
    using get_components_by_category [OF a, of "''ui''"] by simp
  show ?thesis
    using a c respond_fs_panels panel_halves by (intro conjI)
qed



text \<open>
  C6, amended. For every parsed record, the usage string is \<^verbatim>\<open><Name\<close>, then for
  each property that is not optional, in the order of \<^verbatim>\<open>props\<close>, a space and the
  fragment \<^verbatim>\<open>name={value}\<close>, then \<^verbatim>\<open> />\<close>; so it contains the fragment of every
  required property, and an optional property adds no fragment to it. The name of an
  optional property can still occur in the string, in the component name, in the name
  of a required property or in an example value.
\<close>

theorem usage_holds_required_fragments:
  "usage (parseComponent fs filePath) =
     ''<'' @ name (parseComponent fs filePath)
       @ concat (map (\<lambda>e. '' '' @ prop_fragment e)
                  (filter (\<lambda>e. \<not> optional (snd e)) (props (parseComponent fs filePath))))
       @ '' />''
   \<and> (\<forall>e \<in> set (props (parseComponent fs filePath)).
        \<not> optional (snd e) \<longrightarrow>
          str_includes (usage (parseComponent fs filePath))
            (fst e @ ''={'' @ getExampleValue (ptype (snd e)) @ ''}''))"
proof (intro conjI ballI impI)
  let ?r = "parseComponent fs filePath"
  let ?req = "filter (\<lambda>e. \<not> optional (snd e)) (props ?r)"
  show form: "usage ?r = ''<'' @ name ?r @ concat (map (\<lambda>e. '' '' @ prop_fragment e) ?req) @ '' />''"
    by (simp only: usage_of_parseComponent generateUsageExample_form)
  fix e assume "e \<in> set (props ?r)" and "\<not> optional (snd e)"
  then have "e \<in> set ?req" by simp
  then have "str_includes (concat (map (\<lambda>e. '' '' @ prop_fragment e) ?req)) ('' '' @ prop_fragment e)"
    by (rule includes_concat_member)
  then have "str_includes (concat (map (\<lambda>e. '' '' @ prop_fragment e) ?req)) (prop_fragment e)"
    by (rule includes_second_part)
  then have "str_includes (''<'' @ name ?r @ concat (map (\<lambda>e. '' '' @ prop_fragment e) ?req) @ '' />'')
      (prop_fragment e)"
    by (intro includes_append_left includes_append_right)
  then show "str_includes (usage ?r) (fst e @ ''={'' @ getExampleValue (ptype (snd e)) @ ''}'')"
    by (simp only: form prop_fragment_def)
qed

lemma parse_fs_card:
  "props (parseComponent fs_card ''/app/src/components/Card.tsx'')
     = [(''title'', \<lparr>ptype = ''string'', optional = False\<rparr>),
        (''example'', \<lparr>ptype = ''string'', optional = True\<rparr>)]
   \<and> usage (parseComponent fs_card ''/app/src/components/Card.tsx'')
       = ''<Card title={\"example\"} />''"
  by (simp add: parseComponent_def fs_card_def extractProps_card usage_card componentName_card)

theorem usage_holds_required_fragments_witness:
  "(''title'', \<lparr>ptype = ''string'', optional = False\<rparr>)
      \<in> set (props (parseComponent fs_card ''/app/src/components/Card.tsx''))
   \<and> \<not> optional (snd (''title'', \<lparr>ptype = ''string'', optional = False\<rparr>))
   \<and> str_includes (usage (parseComponent fs_card ''/app/src/components/Card.tsx''))
        ''title={\"example\"}''"
  using usage_holds_required_fragments [of fs_card "''/app/src/components/Card.tsx''"]
  by (simp add: parse_fs_card getExampleValue_def)

theorem usage_names_optional_prop_counterexample:
  "props (parseComponent fs_card ''/app/src/components/Card.tsx'')
     = [(''title'', \<lparr>ptype = ''string'', optional = False\<rparr>),
        (''example'', \<lparr>ptype = ''string'', optional = True\<rparr>)]
   \<and> usage (parseComponent fs_card ''/app/src/components/Card.tsx'')
       = ''<Card title={\"example\"} />''
   \<and> str_includes (usage (parseComponent fs_card ''/app/src/components/Card.tsx'')) ''example''"
  by (simp add: parse_fs_card)

text \<open>
  C7. For every name that no cached record bears, when case is ignored, the tool
  \<^verbatim>\<open>get_component_by_name\<close> fails with the error \<^verbatim>\<open>Component <name> not found\<close>,
  and reading the resource \<^verbatim>\<open>component://<name>\<close> succeeds with the body
  \<^verbatim>\<open>{ error: "Component <name> not found" }\<close>.
\<close>

theorem not_found_is_asymmetric:
  assumes "\<forall>c \<in> set (componentsCache (ensureLoaded fs s)). toLowerCase (name c) \<noteq> toLowerCase nm"
  shows "fst (getComponentByName fs nm s) = Inl (Error (''Component '' @ nm @ '' not found''))
         \<and> (2 \<le> length nm \<and> length nm \<le> 100 \<longrightarrow>
              fst (handle fs (CallGetComponentByName nm) s)
                = Inl (Error (''Component '' @ nm @ '' not found'')))
         \<and> fst (handle fs (ReadComponent nm) s)
             = Inr (ErrorObject (''Component '' @ nm @ '' not found''))"
proof -
  from assms
  have "find (\<lambda>c. toLowerCase (name c) = toLowerCase nm) (componentsCache (ensureLoaded fs s)) = None"
    by (simp add: find_None_iff)
  then show ?thesis
    by (simp add: getComponentByName_def readComponent_def Let_def)
qed

theorem not_found_is_asymmetric_witness:
  "componentsCache (ensureLoaded fs_missing with_defaults) = getDefaultComponents
   \<and> toLowerCase ''Preview'' \<noteq> toLowerCase ''Button''
   \<and> toLowerCase ''FileExplorer'' \<noteq> toLowerCase ''Button''
   \<and> fst (handle fs_missing (CallGetComponentByName ''Button'') with_defaults)
       = Inl (Error ''Component Button not found'')
   \<and> fst (handle fs_missing (ReadComponent ''Button'') with_defaults)
       = Inr (ErrorObject ''Component Button not found'')"
proof -
  have c: "componentsCache (ensureLoaded fs_missing with_defaults) = getDefaultComponents"
    by (simp add: ensureLoaded_def with_defaults_def getDefaultComponents_def)
  have n: "toLowerCase ''Preview'' = ''preview''"
    "toLowerCase ''FileExplorer'' = ''fileexplorer''" "toLowerCase ''Button'' = ''button''"
    by code_simp+
  have a: "\<forall>c \<in> set (componentsCache (ensureLoaded fs_missing with_defaults)).
       toLowerCase (name c) \<noteq> toLowerCase ''Button''"
    unfolding c by (simp add: getDefaultComponents_def n)
  show ?thesis
    using c n not_found_is_asymmetric [OF a] by simp
qed

section \<open>Facts about the endpoint\<close>

lemma uuid_not_inherited: "is_uuid sid \<Longrightarrow> sid \<notin> set object_prototype_keys \<and> sid \<noteq> []"
  by (auto simp: is_uuid_def object_prototype_keys_def)

lemma absent_id_is_undefined:
  "transports s sid = None \<Longrightarrow> sid \<notin> set object_prototype_keys \<Longrightarrow>
   transport_of s (Some sid) = Undefined"
  by (simp add: js_get_def)

lemma handleRequest_consistent:
  "sessions_consistent s \<Longrightarrow> sessions_consistent (snd (handleRequest t eff s))"
  by (cases eff)
    (auto simp: handleRequest_def sessions_consistent_def onsessioninitialized_def onclose_def
       split: option.splits)

lemma created_consistent:
  "sessions_consistent s \<Longrightarrow> sessions_consistent (s\<lparr>created := n\<rparr>)"
  by (simp add: sessions_consistent_def)

lemma post_mcp_consistent:
  "sessions_consistent s \<Longrightarrow> sessions_consistent (snd (post_mcp sid isInitialize eff s))"
  by (auto simp: post_mcp_def handleRequest_consistent created_consistent split: property.splits)

lemma handleSessionRequest_consistent:
  "sessions_consistent s \<Longrightarrow> sessions_consistent (snd (handleSessionRequest sid eff s))"
  by (auto simp: handleSessionRequest_def handleRequest_consistent split: property.splits)

lemma onclose_consistent: "sessions_consistent s \<Longrightarrow> sessions_consistent (onclose t s)"
  by (auto simp: sessions_consistent_def onclose_def split: option.splits)

lemma step_consistent: "sessions_consistent s \<Longrightarrow> sessions_consistent (snd (step e s))"
proof (cases e)
  case (Request m sid isInitialize eff)
  assume "sessions_consistent s"
  then show ?thesis using Request
    by (cases m) (simp_all add: split_beta post_mcp_consistent handleSessionRequest_consistent)
next
  case (TransportClosed t)
  assume "sessions_consistent s"
  then show ?thesis using TransportClosed by (simp add: onclose_consistent)
qed

lemma exec_consistent: "sessions_consistent s \<Longrightarrow> sessions_consistent (exec es s)"
  by (induction es arbitrary: s) (simp_all add: step_consistent)

lemma reachable_consistent: "sessions_consistent (exec es initial_http)"
  by (rule exec_consistent) (simp add: sessions_consistent_def initial_http_def)

lemma handleRequest_keeps_absent:
  "transports s sid = None \<Longrightarrow> eff \<noteq> SessionInitialized sid \<Longrightarrow>
   transports (snd (handleRequest t eff s)) sid = None"
  by (cases eff)
    (auto simp: handleRequest_def onsessioninitialized_def onclose_def split: option.splits)

lemma step_keeps_absent:
  assumes "transports s sid = None" "initializes e \<noteq> Some sid"
  shows "transports (snd (step e s)) sid = None"
proof (cases e)
  case (Request m hdr isInitialize eff)
  with assms(2) have eff: "eff \<noteq> SessionInitialized sid" by auto
  have p: "transports (snd (post_mcp hdr isInitialize eff s)) sid = None"
    using assms(1) handleRequest_keeps_absent[OF _ eff]
    by (auto simp: post_mcp_def split: property.splits)
  have h: "transports (snd (handleSessionRequest hdr eff s)) sid = None"
    using assms(1) handleRequest_keeps_absent[OF _ eff]
    by (auto simp: handleSessionRequest_def split: property.splits)
  show ?thesis using Request p h by (cases m) (simp_all add: split_beta)
next
  case (TransportClosed t)
  then show ?thesis using assms(1) by (auto simp: onclose_def split: option.splits)
qed

lemma exec_keeps_absent:
  "transports s sid = None \<Longrightarrow> \<forall>e \<in> set es. initializes e \<noteq> Some sid \<Longrightarrow>
   transports (exec es s) sid = None"
  by (induction es arbitrary: s) (simp_all add: step_keeps_absent)

lemma rejected_requests:
  assumes "transports s sid = None" "sid \<notin> set object_prototype_keys" "sid \<noteq> []"
  shows "post_mcp (Some sid) isInitialize eff s = (Json 400 no_session_error, s)"
    and "handleSessionRequest (Some sid) eff s = (Text 400 ''Invalid or missing session ID'', s)"
  using assms by (simp_all add: post_mcp_def handleSessionRequest_def js_get_def)


lemma exec_append: "exec (es @ es') s = exec es' (exec es s)"
  by (induction es arbitrary: s) simp_all


lemma is_uuid_examples: "is_uuid example_uuid" "is_uuid other_uuid"
  unfolding example_uuid_def other_uuid_def by code_simp+

text \<open>
  C8, amended. For every \<^verbatim>\<open>POST\<close> request whose body the JSON body parser lets
  through, that is not recognized as a session-initialization request, and whose
  session header is absent, or empty, or holds an identifier that is neither stored in
  the session map nor the name of a property that objects inherit, the server responds
  HTTP 400 with the JSON body \<^verbatim>\<open>{"jsonrpc": "2.0", "error": {"code": -32000,
  "message": "Bad Request: No valid session ID provided"}, "id": null}\<close>, and the
  request changes nothing: no transport and no session is created. A request whose
  body the parser refuses is answered with the parser's status by the error page of
  Express, and changes nothing either.
\<close>

theorem post_without_session_is_rejected:
  assumes "sessionId = None \<or> sessionId = Some []
         \<or> (\<exists>sid. sessionId = Some sid \<and> transports s sid = None
                  \<and> sid \<notin> set object_prototype_keys)"
  shows "endpoint POST sessionId (Parsed False) eff s =
           (Json 400
              (JObj [(''jsonrpc'', JStr ''2.0''),
                     (''error'', JObj [(''code'', JNum (- 32000)),
                                       (''message'', JStr ''Bad Request: No valid session ID provided'')]),
                     (''id'', JNull)]),
            s)
         \<and> endpoint POST sessionId (Refused status) eff s = (ErrorPage status, s)"
  using assms
  by (auto simp: post_mcp_def js_get_def no_session_error_def)

theorem post_without_session_is_rejected_witness:
  "transports initial_http example_uuid = None \<and> example_uuid \<notin> set object_prototype_keys
   \<and> endpoint POST (Some example_uuid) (Parsed False) NoEffect initial_http =
       (Json 400
          (JObj [(''jsonrpc'', JStr ''2.0''),
                 (''error'', JObj [(''code'', JNum (- 32000)),
                                   (''message'', JStr ''Bad Request: No valid session ID provided'')]),
                 (''id'', JNull)]),
        initial_http)
   \<and> endpoint POST (Some example_uuid) (Refused 400) NoEffect initial_http
       = (ErrorPage 400, initial_http)"
proof -
  have a: "transports initial_http example_uuid = None" by (simp add: initial_http_def)
  have b: "example_uuid \<notin> set object_prototype_keys"
    using uuid_not_inherited[OF is_uuid_examples(1)] by simp
  have c: "Some example_uuid = None \<or> Some example_uuid = Some []
         \<or> (\<exists>sid. Some example_uuid = Some sid \<and> transports initial_http sid = None
                  \<and> sid \<notin> set object_prototype_keys)"
    using a b by simp
  show ?thesis
    using a b post_without_session_is_rejected [OF c, of NoEffect 400] by simp
qed

theorem post_without_session_counterexample:
  "fst (endpoint POST None (Parsed False) NoEffect initial_http) \<noteq>
     Json 400
       (JObj [(''error'', JObj [(''code'', JNum (- 32000)),
                                (''message'', JStr ''Bad Request: No valid session ID provided'')]),
              (''id'', JNull)])
   \<and> fst (endpoint POST None (Refused 400) NoEffect initial_http) = ErrorPage 400
   \<and> transports initial_http ''constructor'' = None
   \<and> fst (endpoint POST (Some ''constructor'') (Parsed False) NoEffect initial_http)
       = Thrown ''TypeError: transport.handleRequest is not a function''"
  by (simp add: post_mcp_def initial_http_def js_get_def object_prototype_keys_def
      no_session_error_def not_a_function_def)

lemma endpoint_rejected:
  assumes "transports s sid = None" "sid \<notin> set object_prototype_keys" "sid \<noteq> []"
  shows "endpoint POST (Some sid) (Parsed b) eff s = (Json 400 no_session_error, s)"
    and "endpoint GET (Some sid) (Parsed b) eff s = (Text 400 ''Invalid or missing session ID'', s)"
    and "endpoint DELETE (Some sid) (Parsed b) eff s = (Text 400 ''Invalid or missing session ID'', s)"
  using rejected_requests[OF assms] by simp_all

text \<open>
  C9, amended. When a live session, with an identifier of the form that
  \<^verbatim>\<open>randomUUID()\<close> returns, is terminated, by a \<^verbatim>\<open>DELETE\<close> request that its
  transport accepts or by the transport closing, its identifier is removed from the
  session map; and as long as no later initialization is given the same identifier
  again, every later \<^verbatim>\<open>POST\<close> with that identifier whose body the body parser lets
  through is answered by the 400 response of the missing session, and every such
  \<^verbatim>\<open>GET\<close> and \<^verbatim>\<open>DELETE\<close> by the 400 response \<^verbatim>\<open>Invalid or missing session ID\<close>.
\<close>

theorem terminated_session_is_unusable:
  assumes "transports (exec before initial_http) sid = Some t"
    and "is_uuid sid"
    and "terminate = Request DELETE (Some sid) isInitialize0 Closed \<or> terminate = TransportClosed t"
    and "\<forall>e \<in> set later. initializes e \<noteq> Some sid"
  shows "transports (exec (before @ [terminate]) initial_http) sid = None
         \<and> transports (exec (before @ terminate # later) initial_http) sid = None
         \<and> fst (endpoint POST (Some sid) (Parsed isInitialize) eff
                  (exec (before @ terminate # later) initial_http))
             = Json 400 no_session_error
         \<and> fst (endpoint GET (Some sid) (Parsed isInitialize) eff
                  (exec (before @ terminate # later) initial_http))
             = Text 400 ''Invalid or missing session ID''
         \<and> fst (endpoint DELETE (Some sid) (Parsed isInitialize) eff
                  (exec (before @ terminate # later) initial_http))
             = Text 400 ''Invalid or missing session ID''"
proof -
  let ?s = "exec before initial_http"
  have u: "sid \<notin> set object_prototype_keys" "sid \<noteq> []"
    using uuid_not_inherited[OF assms(2)] by simp_all
  have own: "sessionIdOf ?s t = Some sid"
    using reachable_consistent[of before] assms(1) by (simp add: sessions_consistent_def)
  have closed: "transports (onclose t ?s) sid = None"
    using own u(2) by (simp add: onclose_def)
  have "snd (step terminate ?s) = onclose t ?s"
    using assms(3) assms(1) u(2)
    by (auto simp: handleSessionRequest_def js_get_def handleRequest_def)
  with closed have gone: "transports (snd (step terminate ?s)) sid = None" by simp
  then have later: "transports (exec later (snd (step terminate ?s))) sid = None"
    using assms(4) by (rule exec_keeps_absent)
  have e1: "exec (before @ [terminate]) initial_http = snd (step terminate ?s)"
    by (simp add: exec_append)
  have e2: "exec (before @ terminate # later) initial_http = exec later (snd (step terminate ?s))"
    by (simp add: exec_append)
  show ?thesis
    unfolding e1 e2 using gone later endpoint_rejected[OF later u]
    by simp
qed

theorem terminated_session_is_unusable_witness:
  "transports (exec [Request POST None True (SessionInitialized example_uuid)] initial_http)
     example_uuid = Some 0
   \<and> is_uuid example_uuid
   \<and> initializes (Request POST None True (SessionInitialized other_uuid)) \<noteq> Some example_uuid
   \<and> fst (endpoint POST (Some example_uuid) (Parsed False) NoEffect
            (exec ([Request POST None True (SessionInitialized example_uuid)]
                   @ Request DELETE (Some example_uuid) False Closed
                   # [Request POST None True (SessionInitialized other_uuid)]) initial_http))
       = Json 400 no_session_error
   \<and> fst (endpoint GET (Some example_uuid) (Parsed False) NoEffect
            (exec ([Request POST None True (SessionInitialized example_uuid)]
                   @ Request DELETE (Some example_uuid) False Closed
                   # [Request POST None True (SessionInitialized other_uuid)]) initial_http))
       = Text 400 ''Invalid or missing session ID''"
proof -
  have a: "transports (exec [Request POST None True (SessionInitialized example_uuid)] initial_http)
     example_uuid = Some 0"
    by (simp add: post_mcp_def handleRequest_def onsessioninitialized_def initial_http_def)
  have b: "\<forall>e \<in> set [Request POST None True (SessionInitialized other_uuid)].
         initializes e \<noteq> Some example_uuid"
    by (simp add: example_uuid_def other_uuid_def)
  have c: "Request DELETE (Some example_uuid) False Closed
             = Request DELETE (Some example_uuid) False Closed
           \<or> Request DELETE (Some example_uuid) False Closed = TransportClosed 0"
    by simp
  show ?thesis
    using a b is_uuid_examples(1)
      terminated_session_is_unusable [OF a is_uuid_examples(1) c b, of False NoEffect]
    by simp
qed

theorem terminated_session_reused_counterexample:
  "transports (exec [Request POST None True (SessionInitialized example_uuid)] initial_http)
     example_uuid = Some 0
   \<and> transports (exec [Request POST None True (SessionInitialized example_uuid),
                       Request DELETE (Some example_uuid) False Closed] initial_http)
       example_uuid = None
   \<and> fst (endpoint GET (Some example_uuid) (Parsed False) NoEffect
            (exec [Request POST None True (SessionInitialized example_uuid),
                   Request DELETE (Some example_uuid) False Closed,
                   Request POST None True (SessionInitialized example_uuid)] initial_http))
       = FromTransport 1
   \<and> fst (endpoint POST (Some example_uuid) (Refused 400) NoEffect
            (exec [Request POST None True (SessionInitialized example_uuid),
                   Request DELETE (Some example_uuid) False Closed] initial_http))
       = ErrorPage 400"
  by (simp add: post_mcp_def handleSessionRequest_def handleRequest_def onsessioninitialized_def
      onclose_def initial_http_def js_get_def example_uuid_def)






end
